theory Spec2Isabelle
  imports Main
begin

section \<open>JavaScript values, strings and the regular expressions of the builder\<close>

text \<open>
  The browser builder (\<^verbatim>\<open>build_angular/src/browser/index.ts\<close>) works on JavaScript
  strings. A string is a \<^typ>\<open>string\<close>; every pattern the builder searches for is ASCII,
  so positions of matches agree between UTF-16 code units and bytes.
  A value that can be thrown and caught (\<^verbatim>\<open>catch (err)\<close>, \<^verbatim>\<open>err: unknown\<close>) is a
  \<open>js_value\<close>: an \<^verbatim>\<open>Error\<close> instance with its message, a string, or something else.
\<close>

datatype js_value =
    ErrorObject string
  | StringValue string
  | NumberValue int
  | UndefinedValue
  | OtherObject

definition startsWith :: "string \<Rightarrow> string \<Rightarrow> bool" where
  "startsWith s p = (take (length p) s = p)"

definition endsWith :: "string \<Rightarrow> string \<Rightarrow> bool" where
  "endsWith s p = (length p \<le> length s \<and> drop (length s - length p) s = p)"

fun str_includes :: "string \<Rightarrow> string \<Rightarrow> bool" where
  "str_includes [] p = (p = [])"
| "str_includes (c # cs) p = (startsWith (c # cs) p \<or> str_includes cs p)"

text \<open>\<^verbatim>\<open>\d\<close> of a JavaScript regular expression without the unicode flag.\<close>

definition isDigit :: "char \<Rightarrow> bool" where
  "isDigit c = (c \<in> set ''0123456789'')"

text \<open>
  A pattern is given by its matcher at the start of a string: the length of the match
  there, if any. \<open>matchEs20\<close> is \<^verbatim>\<open>/\-es20\d{2}/\<close>, \<open>matchEsAny\<close> is
  \<^verbatim>\<open>/\-(es20\d{2}|esnext)/\<close>.
\<close>

definition matchEs20 :: "string \<Rightarrow> nat option" where
  "matchEs20 s =
     (if startsWith s ''-es20'' \<and> 7 \<le> length s \<and> isDigit (s ! 5) \<and> isDigit (s ! 6)
      then Some 7 else None)"

definition matchEsAny :: "string \<Rightarrow> nat option" where
  "matchEsAny s =
     (case matchEs20 s of
        Some n \<Rightarrow> Some n
      | None \<Rightarrow> if startsWith s ''-esnext'' then Some 7 else None)"

text \<open>
  \<^verbatim>\<open>s.replace(regex, r)\<close> for a regular expression without the \<^verbatim>\<open>g\<close> flag and a
  replacement without \<^verbatim>\<open>$\<close>: the leftmost match is replaced, the rest is kept.
\<close>

fun replaceFirst :: "(string \<Rightarrow> nat option) \<Rightarrow> string \<Rightarrow> string \<Rightarrow> string" where
  "replaceFirst m r [] = (case m [] of Some n \<Rightarrow> r | None \<Rightarrow> [])"
| "replaceFirst m r (c # cs) =
     (case m (c # cs) of
        Some n \<Rightarrow> r @ drop n (c # cs)
      | None \<Rightarrow> c # replaceFirst m r cs)"

text \<open>\<^verbatim>\<open>regex.test(s)\<close>: the pattern matches somewhere in the string.\<close>

fun matchesSomewhere :: "(string \<Rightarrow> nat option) \<Rightarrow> string \<Rightarrow> bool" where
  "matchesSomewhere m [] = (m [] \<noteq> None)"
| "matchesSomewhere m (c # cs) = (m (c # cs) \<noteq> None \<or> matchesSomewhere m cs)"

text \<open>
  The two renames of the classifier (lines 380, 433, 460, 461):
  \<^verbatim>\<open>x.replace(/\-es20\d{2}/, '')\<close> and \<^verbatim>\<open>x.replace(/\-(es20\d{2}|esnext)/, '-es5')\<close>.
\<close>

definition stripEs20 :: "string \<Rightarrow> string" where
  "stripEs20 s = replaceFirst matchEs20 [] s"

definition toEs5Name :: "string \<Rightarrow> string" where
  "toEs5Name s = replaceFirst matchEsAny ''-es5'' s"

text \<open>Truthiness of an optional string: \<^verbatim>\<open>undefined\<close> and \<^verbatim>\<open>''\<close> are falsy.\<close>

definition truthy :: "string option \<Rightarrow> bool" where
  "truthy v = (case v of None \<Rightarrow> False | Some s \<Rightarrow> s \<noteq> [])"

text \<open>\<open>mapErrorToMessage\<close> (lines 807-817).\<close>

fun mapErrorToMessage :: "js_value \<Rightarrow> string option" where
  "mapErrorToMessage (ErrorObject msg) = Some msg"
| "mapErrorToMessage (StringValue s) = Some s"
| "mapErrorToMessage _ = None"


section \<open>The data model of the differential-loading stage\<close>

text \<open>
  The records follow the objects of \<^verbatim>\<open>buildWebpackBrowser\<close>. Several of them have a
  field \<^verbatim>\<open>name\<close>, \<^verbatim>\<open>filename\<close> or \<^verbatim>\<open>map\<close>; a field name is a constant here, so
  fields are prefixed where two records would share one: \<open>ef_\<close> for an emitted file,
  \<open>f_\<close> for a written bundle file, \<open>r_\<close> for a process result, \<open>i_\<close> for an inline
  action, \<open>d_\<close> for a diagnostic.

  \<open>EmittedFiles\<close> has the fields the builder reads. \<^verbatim>\<open>asset\<close> is an optional boolean
  that is only tested for truth, so \<^verbatim>\<open>undefined\<close> is \<open>False\<close>.

  The name of a process result is the name of its action, which is \<^verbatim>\<open>file.id!\<close>
  (line 447): it is \<^verbatim>\<open>undefined\<close> for the result of a file without an id, as a worker
  asset is.
\<close>

record EmittedFiles =
  ef_id :: "string option"
  ef_name :: "string option"
  ef_file :: string
  ef_asset :: bool
  ef_extension :: string

record SourceMapFile =
  m_filename :: string
  m_size :: nat

record ProcessBundleFile =
  f_filename :: string
  f_size :: nat
  f_map :: "SourceMapFile option"

record ProcessBundleResult =
  r_name :: "string option"
  r_integrity :: "string option"
  original :: "ProcessBundleFile option"
  downlevel :: "ProcessBundleFile option"

text \<open>
  \<open>ActionOptions\<close> is \<^verbatim>\<open>actionOptions\<close> (lines 358-364), the options every bundle
  action shares; \<open>ProcessBundleOptions\<close> extends it, as the object spread
  \<^verbatim>\<open>{...actionOptions, filename, code, ...}\<close> does. \<open>name\<close> is \<^verbatim>\<open>file.id!\<close>, which is
  \<^verbatim>\<open>undefined\<close> when the emitted file has no id.
\<close>

record ActionOptions =
  optimize :: bool
  sourceMaps :: bool
  hiddenSourceMaps :: bool
  vendorSourceMaps :: bool
  integrityAlgorithm :: "string option"

record ProcessBundleOptions = ActionOptions +
  filename :: string
  code :: string
  map_content :: "string option"
  name :: "string option"
  runtime :: bool
  ignoreOriginal :: bool
  optimizeOnly :: bool
  replacements :: "(string \<times> string) list option"
  runtimeData :: "ProcessBundleResult list option"
  supportedBrowsers :: "string list option"

record InlineOptions =
  i_filename :: string
  i_code :: string
  i_map :: "string option"
  i_outputPath :: string
  es5 :: bool
  missingTranslation :: "string option"
  setLocale :: bool

datatype diagnostic_type = DiagError | DiagWarning

record Diagnostic =
  d_type :: diagnostic_type
  d_message :: string

record InlineResult =
  ir_file :: string
  ir_count :: nat
  diagnostics :: "Diagnostic list"

record BuilderOutput =
  success :: bool
  error :: "string option"

section \<open>The file system\<close>

text \<open>
  The files under the output path, as an association list from path to content.
  \<^verbatim>\<open>fs.readFileSync\<close> and \<^verbatim>\<open>fs.unlinkSync\<close> throw when the path does not exist.
\<close>

type_synonym filesystem = "(string \<times> string) list"

definition readFileSync :: "filesystem \<Rightarrow> string \<Rightarrow> js_value + string" where
  "readFileSync d p =
     (case map_of d p of
        None \<Rightarrow> Inl (ErrorObject (''ENOENT: no such file or directory, open '' @ p))
      | Some content \<Rightarrow> Inr content)"

definition unlinkSync :: "filesystem \<Rightarrow> string \<Rightarrow> js_value + filesystem" where
  "unlinkSync d p =
     (case map_of d p of
        None \<Rightarrow> Inl (ErrorObject (''ENOENT: no such file or directory, unlink '' @ p))
      | Some content \<Rightarrow> Inr (filter (\<lambda>kv. fst kv \<noteq> p) d))"

section \<open>Classification of the emitted files (lines 366-463)\<close>

text \<open>
  What the stage reads from its surroundings and never changes:
  \<^item> \<open>outputPath\<close> is \<^verbatim>\<open>webpackStats.outputPath!\<close>, \<open>baseOutputPath\<close> and \<open>outputPaths\<close>
    are the variables of these names (the latter as \<^verbatim>\<open>Array.from(outputPaths.values())\<close>);
  \<^item> \<open>scriptsEntryPointName\<close> holds the bundle names of the \<^verbatim>\<open>scripts\<close> option;
  \<^item> \<open>actionOptions\<close> is the object of lines 358-364;
  \<^item> \<open>shouldInline\<close> is \<^verbatim>\<open>i18n.shouldInline\<close>, \<open>verbose\<close> and \<open>i18nMissingTranslation\<close>
    are the options of these names, \<open>browsers\<close> is
    \<^verbatim>\<open>buildBrowserFeatures.supportedBrowsers\<close>;
  \<^item> \<open>pathJoin\<close>, \<open>pathBasename\<close> and \<open>pathRelative\<close> are \<^verbatim>\<open>path.join\<close>,
    \<^verbatim>\<open>path.basename\<close> and \<^verbatim>\<open>path.relative\<close> of the host platform.
\<close>

record BuildEnv =
  outputPath :: string
  baseOutputPath :: string
  outputPaths :: "string list"
  scriptsEntryPointName :: "string list"
  actionOptions :: ActionOptions
  shouldInline :: bool
  verbose :: bool
  i18nMissingTranslation :: "string option"
  browsers :: "string list"
  pathJoin :: "string \<Rightarrow> string \<Rightarrow> string"
  pathBasename :: "string \<Rightarrow> string"
  pathRelative :: "string \<Rightarrow> string \<Rightarrow> string"

text \<open>Lines 358-364: the integrity algorithm of the actions follows the
  \<^verbatim>\<open>subresourceIntegrity\<close> option; the other fields are the normalised
  \<^verbatim>\<open>optimization\<close> and \<^verbatim>\<open>sourceMap\<close> options.\<close>

definition makeActionOptions :: "bool \<Rightarrow> bool \<Rightarrow> bool \<Rightarrow> bool \<Rightarrow> bool \<Rightarrow> ActionOptions" where
  "makeActionOptions optimizeScripts mapScripts mapHidden mapVendor subresourceIntegrity =
     \<lparr>optimize = optimizeScripts, sourceMaps = mapScripts, hiddenSourceMaps = mapHidden,
      vendorSourceMaps = mapVendor,
      integrityAlgorithm = (if subresourceIntegrity then Some ''sha384'' else None)\<rparr>"

text \<open>The variables the loop updates, and the file system it reads and unlinks from.\<close>

record ClassifyState =
  mainChunkId :: "string option"
  actions :: "ProcessBundleOptions list"
  workerReplacements :: "(string \<times> string) list option"
  seen :: "string set"
  files :: "EmittedFiles list option"
  moduleFiles :: "EmittedFiles list"
  noModuleFiles :: "EmittedFiles list"
  disk :: filesystem

definition initialState :: "filesystem \<Rightarrow> ClassifyState" where
  "initialState d =
     \<lparr>mainChunkId = None, actions = [], workerReplacements = None, seen = {},
      files = None, moduleFiles = [], noModuleFiles = [], disk = d\<rparr>"

text \<open>Lines 375-381: a worker asset is recorded with its ES5 name.\<close>

definition recordWorker :: "EmittedFiles \<Rightarrow> ClassifyState \<Rightarrow> ClassifyState" where
  "recordWorker file st =
     st\<lparr>workerReplacements :=
          Some ((case workerReplacements st of None \<Rightarrow> [] | Some ws \<Rightarrow> ws)
                @ [(ef_file file, toEs5Name (ef_file file))])\<rparr>"

text \<open>Line 390: \<^verbatim>\<open>file.name && scriptsEntryPointName.includes(file.name)\<close>.\<close>

definition isScriptsEntry :: "BuildEnv \<Rightarrow> EmittedFiles \<Rightarrow> bool" where
  "isScriptsEntry env file =
     (case ef_name file of
        None \<Rightarrow> False
      | Some n \<Rightarrow> n \<noteq> [] \<and> n \<in> set (scriptsEntryPointName env))"

text \<open>
  Lines 405-408. \<^verbatim>\<open>file.id!.toString()\<close> throws a TypeError when the id is
  \<^verbatim>\<open>undefined\<close>; an id is a string, which \<^verbatim>\<open>toString\<close> returns unchanged.
\<close>

definition setMainChunkId :: "EmittedFiles \<Rightarrow> ClassifyState \<Rightarrow> js_value + ClassifyState" where
  "setMainChunkId file st =
     (if ef_name file = Some ''vendor''
         \<or> (\<not> truthy (mainChunkId st) \<and> ef_name file = Some ''main'')
      then (case ef_id file of
              None \<Rightarrow> Inl (ErrorObject ''Cannot read property toString of undefined'')
            | Some i \<Rightarrow> Inr (st\<lparr>mainChunkId := Some i\<rparr>))
      else Inr st)"

text \<open>
  Lines 419-434: the content and the source map of the file are read; for a prebuilt
  ES5 polyfill bundle both files are unlinked and the file name loses its version
  suffix. A failure inside the \<^verbatim>\<open>try\<close> around the source map is swallowed.
  The result is the file name, the code, the map and the file system left behind.
\<close>

definition readBundle ::
  "BuildEnv \<Rightarrow> EmittedFiles \<Rightarrow> filesystem
     \<Rightarrow> js_value + (string \<times> string \<times> string option \<times> filesystem)" where
  "readBundle env file d =
     (let es5Polyfills = startsWith (ef_file file) ''polyfills-es5'';
          fname = pathJoin env (outputPath env) (ef_file file)
      in case readFileSync d fname of
           Inl e \<Rightarrow> Inl e
         | Inr content \<Rightarrow>
             let (mp, d1) =
                   (if sourceMaps (actionOptions env)
                    then (case readFileSync d (fname @ ''.map'') of
                            Inl e \<Rightarrow> (None, d)
                          | Inr m \<Rightarrow>
                              (Some m,
                               if es5Polyfills
                               then (case unlinkSync d (fname @ ''.map'') of
                                       Inl e \<Rightarrow> d
                                     | Inr d' \<Rightarrow> d')
                               else d))
                    else (None, d))
             in if es5Polyfills
                then (case unlinkSync d1 fname of
                        Inl e \<Rightarrow> Inl e
                      | Inr d2 \<Rightarrow> Inr (stripEs20 fname, content, mp, d2))
                else Inr (fname, content, mp, d1))"

text \<open>Lines 440-451: the bundle processing action of a file.\<close>

definition makeAction ::
  "ActionOptions \<Rightarrow> EmittedFiles \<Rightarrow> string \<Rightarrow> string \<Rightarrow> string option
     \<Rightarrow> ProcessBundleOptions" where
  "makeAction ao file fname content mp =
     \<lparr>optimize = optimize ao, sourceMaps = sourceMaps ao,
      hiddenSourceMaps = hiddenSourceMaps ao, vendorSourceMaps = vendorSourceMaps ao,
      integrityAlgorithm = integrityAlgorithm ao,
      filename = fname, code = content, map_content = mp,
      name = ef_id file,
      runtime = startsWith (ef_file file) ''runtime'',
      ignoreOriginal = startsWith (ef_file file) ''polyfills-es5'',
      optimizeOnly = startsWith (ef_file file) ''polyfills-es20'',
      replacements = None, runtimeData = None, supportedBrowsers = None\<rparr>"

text \<open>Lines 410-462: a script that is seen for the first time.\<close>

definition processScript ::
  "BuildEnv \<Rightarrow> EmittedFiles \<Rightarrow> ClassifyState \<Rightarrow> js_value + ClassifyState" where
  "processScript env file st1 =
     (let es5Polyfills = startsWith (ef_file file) ''polyfills-es5'';
          st2 = (if \<not> es5Polyfills
                 then st1\<lparr>moduleFiles := moduleFiles st1 @ [file]\<rparr> else st1)
      in case readBundle env file (disk st2) of
           Inl e \<Rightarrow> Inl e
         | Inr (fname, content, mp, d) \<Rightarrow>
             let es2015Polyfills = startsWith (ef_file file) ''polyfills-es20'';
                 st3 = st2\<lparr>disk := d,
                           actions := actions st2
                             @ [makeAction (actionOptions env) file fname content mp]\<rparr>
             in if es2015Polyfills then Inr st3
                else Inr (st3\<lparr>noModuleFiles := noModuleFiles st3
                            @ [file\<lparr>ef_file :=
                                 (if es5Polyfills then stripEs20 (ef_file file)
                                  else toEs5Name (ef_file file))\<rparr>]\<rparr>))"

text \<open>Lines 370-463: one iteration of the loop over \<^verbatim>\<open>emittedFiles\<close>.\<close>

definition classifyFile ::
  "BuildEnv \<Rightarrow> EmittedFiles \<Rightarrow> ClassifyState \<Rightarrow> js_value + ClassifyState" where
  "classifyFile env file st0 =
     (if ef_asset file \<and> \<not> endsWith (ef_file file) ''.worker.js'' then Inr st0
      else
        let st = (if ef_asset file then recordWorker file st0 else st0)
        in if ef_extension file \<noteq> ''.js'' \<or> isScriptsEntry env file
           then Inr (st\<lparr>files :=
                        Some ((case files st of None \<Rightarrow> [] | Some fl \<Rightarrow> fl) @ [file])\<rparr>)
           else if ef_file file \<in> seen st then Inr st
           else (case setMainChunkId file (st\<lparr>seen := insert (ef_file file) (seen st)\<rparr>) of
                   Inl e \<Rightarrow> Inl e
                 | Inr st1 \<Rightarrow> processScript env file st1))"

fun classifyAll ::
  "BuildEnv \<Rightarrow> EmittedFiles list \<Rightarrow> ClassifyState \<Rightarrow> js_value + ClassifyState" where
  "classifyAll env [] st = Inr st"
| "classifyAll env (file # rest) st =
     (case classifyFile env file st of
        Inl e \<Rightarrow> Inl e
      | Inr st' \<Rightarrow> classifyAll env rest st')"

definition classify ::
  "BuildEnv \<Rightarrow> EmittedFiles list \<Rightarrow> filesystem \<Rightarrow> js_value + ClassifyState" where
  "classify env emittedFiles d = classifyAll env emittedFiles (initialState d)"


section \<open>Submission of the actions (lines 465-500)\<close>

text \<open>
  Lines 465-476: with an integrity algorithm the runtime action is withheld; every other
  action is submitted with the worker replacements. A later runtime action overwrites
  an earlier one.
\<close>

fun splitActions ::
  "(string \<times> string) list option \<Rightarrow> ProcessBundleOptions list
     \<Rightarrow> ProcessBundleOptions list \<times> ProcessBundleOptions option
     \<Rightarrow> ProcessBundleOptions list \<times> ProcessBundleOptions option" where
  "splitActions wr [] acc = acc"
| "splitActions wr (action # rest) (processActions, processRuntimeAction) =
     (if truthy (integrityAlgorithm action) \<and> runtime action
      then splitActions wr rest (processActions, Some action)
      else splitActions wr rest
             (processActions @ [action\<lparr>replacements := wr\<rparr>], processRuntimeAction))"

text \<open>
  The executor (\<^verbatim>\<open>utils/action-executor\<close>), the bundle processor
  (\<^verbatim>\<open>utils/process-bundle\<close>) and \<^verbatim>\<open>copyAssets\<close> are collaborators of the builder.
  \<open>processAll\<close> and \<open>inlineAll\<close> return an asynchronous sequence, which the builder
  draws with \<^verbatim>\<open>for await\<close>: the results it yields, in the order of their completion,
  and the value it throws at the end, if it fails. Processing writes bundle files, which the builder
  reads back, so \<open>processAll\<close> and \<open>processBundle\<close> take the file system and
  return it.
\<close>

record Executor =
  processAll ::
    "ProcessBundleOptions list \<Rightarrow> filesystem
       \<Rightarrow> (ProcessBundleResult list \<times> js_value option) \<times> filesystem"
  inlineAll :: "InlineOptions list \<Rightarrow> InlineResult list \<times> js_value option"
  processBundle ::
    "ProcessBundleOptions \<Rightarrow> filesystem \<Rightarrow> (js_value + ProcessBundleResult) \<times> filesystem"
  copyAssets :: "string list \<Rightarrow> string list \<Rightarrow> js_value option"

text \<open>What the stage does to its surroundings, in order.\<close>

datatype spinner = DlSpinner | LocaleSpinner

datatype event =
    SpinnerStart spinner
  | SpinnerStop spinner
  | SpinnerSucceed spinner string
  | SpinnerFail spinner string
  | LoggerInfoLocalized string nat
  | LoggerWarn string
  | LoggerError string
  | ProcessAllCalled "ProcessBundleOptions list"
  | ProcessCalled ProcessBundleOptions
  | InlineAllCalled "InlineOptions list"
  | InlineDrawn InlineResult
  | CopyAssetsCalled "string list" "string list"
  | ExecutorStop

text \<open>How a block of statements ends: it falls through with a value, returns the
  build's output, or throws.\<close>

datatype 'a completion = Normal 'a | Return BuilderOutput | Throw js_value

text \<open>
  Lines 485-502: all submitted actions are processed and their results collected; only
  then the withheld runtime action is processed, with the collected results as its
  \<^verbatim>\<open>runtimeData\<close>, and its result is pushed last.
\<close>

definition processStage ::
  "Executor \<Rightarrow> BuildEnv \<Rightarrow> ProcessBundleOptions list \<Rightarrow> ProcessBundleOptions option
     \<Rightarrow> filesystem \<Rightarrow> (js_value + ProcessBundleResult list) \<times> filesystem \<times> event list" where
  "processStage ex env processActions processRuntimeAction d =
     (let ((processResults, thrown), d1) = processAll ex processActions d;
          ev = [SpinnerStart DlSpinner, ProcessAllCalled processActions]
      in case thrown of
           Some e \<Rightarrow> (Inl e, d1, ev)
         | None \<Rightarrow>
             (case processRuntimeAction of
                None \<Rightarrow>
                  (Inr processResults, d1,
                   ev @ [SpinnerSucceed DlSpinner ''ES5 bundle generation complete.''])
              | Some ra \<Rightarrow>
                  let runtimeOptions =
                        ra\<lparr>runtimeData := Some processResults,
                           supportedBrowsers := Some (browsers env)\<rparr>
                  in case processBundle ex runtimeOptions d1 of
                       (Inl e, d2) \<Rightarrow> (Inl e, d2, ev @ [ProcessCalled runtimeOptions])
                     | (Inr r, d2) \<Rightarrow>
                         (Inr (processResults @ [r]), d2,
                          ev @ [ProcessCalled runtimeOptions,
                                SpinnerSucceed DlSpinner
                                  ''ES5 bundle generation complete.''])))"

section \<open>Inlining of the translations (lines 504-598)\<close>

text \<open>\<^verbatim>\<open>Set.add\<close>; a JavaScript set keeps the order of insertion.\<close>

definition setAdd :: "string list \<Rightarrow> string \<Rightarrow> string list" where
  "setAdd xs x = (if x \<in> set xs then xs else xs @ [x])"

text \<open>
  Lines 510-526 and 527-543: the inline action of one variant of a result, if the
  variant is present. Reading the bundle or its map can throw.
\<close>

definition addVariant ::
  "BuildEnv \<Rightarrow> string option \<Rightarrow> filesystem \<Rightarrow> ProcessBundleResult
     \<Rightarrow> ProcessBundleFile option \<Rightarrow> bool
     \<Rightarrow> InlineOptions list \<times> string list \<Rightarrow> js_value + InlineOptions list \<times> string list" where
  "addVariant env mainId d result variant isEs5 acc =
     (case variant of
        None \<Rightarrow> Inr acc
      | Some bundle \<Rightarrow>
          (case readFileSync d (f_filename bundle) of
             Inl e \<Rightarrow> Inl e
           | Inr content \<Rightarrow>
               (case (case f_map bundle of
                        None \<Rightarrow> Inr None
                      | Some m \<Rightarrow>
                          (case readFileSync d (m_filename m) of
                             Inl e \<Rightarrow> Inl e
                           | Inr c \<Rightarrow> Inr (Some c))) of
                  Inl e \<Rightarrow> Inl e
                | Inr mp \<Rightarrow>
                    Inr (fst acc
                           @ [\<lparr>i_filename = pathBasename env (f_filename bundle),
                               i_code = content, i_map = mp,
                               i_outputPath = baseOutputPath env, es5 = isEs5,
                               missingTranslation = i18nMissingTranslation env,
                               setLocale = (r_name result = mainId)\<rparr>],
                         (let pf = setAdd (snd acc) (f_filename bundle)
                          in case f_map bundle of
                               None \<Rightarrow> pf
                             | Some m \<Rightarrow> setAdd pf (m_filename m))))))"

text \<open>Lines 507-544: the inline actions and the set of processed files.\<close>

fun inlineActionsOf ::
  "BuildEnv \<Rightarrow> string option \<Rightarrow> filesystem \<Rightarrow> ProcessBundleResult list
     \<Rightarrow> InlineOptions list \<times> string list \<Rightarrow> js_value + InlineOptions list \<times> string list" where
  "inlineActionsOf env mainId d [] acc = Inr acc"
| "inlineActionsOf env mainId d (result # rest) acc =
     (case addVariant env mainId d result (original result) False acc of
        Inl e \<Rightarrow> Inl e
      | Inr acc1 \<Rightarrow>
          (case addVariant env mainId d result (downlevel result) True acc1 of
             Inl e \<Rightarrow> Inl e
           | Inr acc2 \<Rightarrow> inlineActionsOf env mainId d rest acc2))"

text \<open>Lines 554-563: the diagnostics of one inline result.\<close>

fun reportDiagnostics :: "Diagnostic list \<Rightarrow> bool \<Rightarrow> bool \<times> event list" where
  "reportDiagnostics [] hasErrors = (hasErrors, [])"
| "reportDiagnostics (diagnostic # rest) hasErrors =
     (if d_type diagnostic = DiagError
      then (let (h, ev) = reportDiagnostics rest True
            in (h, [SpinnerStop LocaleSpinner, LoggerError (d_message diagnostic),
                    SpinnerStart LocaleSpinner] @ ev))
      else (let (h, ev) = reportDiagnostics rest hasErrors
            in (h, [SpinnerStop LocaleSpinner, LoggerWarn (d_message diagnostic),
                    SpinnerStart LocaleSpinner] @ ev)))"

text \<open>Lines 548-564: the body of the \<^verbatim>\<open>for await\<close> loop, for every result drawn.\<close>

fun drawInlineResults :: "bool \<Rightarrow> InlineResult list \<Rightarrow> bool \<Rightarrow> bool \<times> event list" where
  "drawInlineResults v [] hasErrors = (hasErrors, [])"
| "drawInlineResults v (result # rest) hasErrors =
     (let (h1, ev1) = reportDiagnostics (diagnostics result) hasErrors;
          (h2, ev2) = drawInlineResults v rest h1
      in (h2,
          [InlineDrawn result]
          @ (if v then [LoggerInfoLocalized (ir_file result) (ir_count result)] else [])
          @ ev1 @ ev2))"

definition failedText :: string where
  "failedText = ''Localized bundle generation failed.''"

text \<open>
  Lines 546-597: the inline results are drawn, the files that were not processed are
  copied, and the stage returns when something was thrown or an error was diagnosed.
\<close>

definition inlineStage ::
  "Executor \<Rightarrow> BuildEnv \<Rightarrow> InlineOptions list \<Rightarrow> string list
     \<Rightarrow> unit completion \<times> event list" where
  "inlineStage ex env inlineActions processedFiles =
     (let (results, thrown) = inlineAll ex inlineActions;
          (hasErrors, ev) = drawInlineResults (verbose env) results False;
          ev1 = [InlineAllCalled inlineActions] @ ev
      in case thrown of
           Some err \<Rightarrow>
             (Return \<lparr>success = False, error = mapErrorToMessage err\<rparr>,
              ev1 @ [SpinnerFail LocaleSpinner failedText])
         | None \<Rightarrow>
             (let ignored = map (pathRelative env (outputPath env)) processedFiles;
                  ev2 = ev1 @ [CopyAssetsCalled ignored (outputPaths env)]
              in case copyAssets ex ignored (outputPaths env) of
                   Some err \<Rightarrow>
                     (Return \<lparr>success = False, error = mapErrorToMessage err\<rparr>,
                      ev2 @ [SpinnerFail LocaleSpinner failedText])
                 | None \<Rightarrow>
                     if hasErrors
                     then (Return \<lparr>success = False, error = None\<rparr>,
                           ev2 @ [SpinnerFail LocaleSpinner failedText])
                     else (Normal (),
                           ev2 @ [SpinnerSucceed LocaleSpinner
                                    ''Localized bundle generation complete.''])))"

section \<open>The guarded block and the release of the executor (lines 478-601)\<close>

text \<open>Lines 484-598: the body of the \<^verbatim>\<open>try\<close>. It falls through with the process results.\<close>

definition tryBody ::
  "Executor \<Rightarrow> BuildEnv \<Rightarrow> string option \<Rightarrow> ProcessBundleOptions list
     \<Rightarrow> ProcessBundleOptions option \<Rightarrow> filesystem
     \<Rightarrow> ProcessBundleResult list completion \<times> event list" where
  "tryBody ex env mainId processActions processRuntimeAction d =
     (case processStage ex env processActions processRuntimeAction d of
        (Inl e, d1, ev) \<Rightarrow> (Throw e, ev)
      | (Inr processResults, d1, ev) \<Rightarrow>
          if shouldInline env
          then (case inlineActionsOf env mainId d1 processResults ([], []) of
                  Inl e \<Rightarrow> (Throw e, ev @ [SpinnerStart LocaleSpinner])
                | Inr (inlineActions, processedFiles) \<Rightarrow>
                    (case inlineStage ex env inlineActions processedFiles of
                       (Normal u, ev') \<Rightarrow>
                         (Normal processResults, ev @ [SpinnerStart LocaleSpinner] @ ev')
                     | (Return out, ev') \<Rightarrow>
                         (Return out, ev @ [SpinnerStart LocaleSpinner] @ ev')
                     | (Throw e, ev') \<Rightarrow>
                         (Throw e, ev @ [SpinnerStart LocaleSpinner] @ ev')))
          else (Normal processResults, ev))"

text \<open>Lines 478-601: the \<^verbatim>\<open>finally\<close> clause stops the executor however the body ends.\<close>

definition executorStage ::
  "Executor \<Rightarrow> BuildEnv \<Rightarrow> string option \<Rightarrow> ProcessBundleOptions list
     \<Rightarrow> ProcessBundleOptions option \<Rightarrow> filesystem
     \<Rightarrow> ProcessBundleResult list completion \<times> event list" where
  "executorStage ex env mainId processActions processRuntimeAction d =
     (let (c, ev) = tryBody ex env mainId processActions processRuntimeAction d
      in (c, ev @ [ExecutorStop]))"

section \<open>The budgets (lines 653-677)\<close>

text \<open>
  \<^verbatim>\<open>ThresholdSeverity\<close> has the members \<^verbatim>\<open>Warning\<close> and \<^verbatim>\<open>Error\<close>; the
  \<^verbatim>\<open>default\<close> branch of the switch is there for any other value met at run time,
  given here by its JSON text.
\<close>

datatype ThresholdSeverity = Warning | Error | OtherSeverity string

record BudgetFailure =
  severity :: ThresholdSeverity
  message :: string

record ChildStats =
  c_warnings :: "string list"
  c_errors :: "string list"

record WebpackStats =
  warnings :: "string list"
  errors :: "string list"
  children :: "ChildStats list option"

text \<open>\<open>assertNever\<close> (lines 819-822): the value it throws.\<close>

definition assertNever :: "string \<Rightarrow> js_value" where
  "assertNever input = ErrorObject (''Unexpected call to assertNever() with input: '' @ input)"

text \<open>
  Lines 656-668: the loop over the budget failures. The lists of the stats are changed in
  place, so what was pushed before \<open>assertNever\<close> throws stays pushed: the loop gives
  the value thrown, if any, and the stats it leaves behind.
\<close>

fun recordBudgetFailures ::
  "BudgetFailure list \<Rightarrow> WebpackStats \<Rightarrow> js_value option \<times> WebpackStats" where
  "recordBudgetFailures [] webpackStats = (None, webpackStats)"
| "recordBudgetFailures (failure # rest) webpackStats =
     (let msg = ''budgets: '' @ message failure
      in case severity failure of
           Warning \<Rightarrow>
             recordBudgetFailures rest (webpackStats\<lparr>warnings := warnings webpackStats @ [msg]\<rparr>)
         | Error \<Rightarrow>
             recordBudgetFailures rest (webpackStats\<lparr>errors := errors webpackStats @ [msg]\<rparr>)
         | OtherSeverity v \<Rightarrow> (Some (assertNever v), webpackStats))"

text \<open>\<open>statsHasErrors\<close> (\<^verbatim>\<open>stats.ts\<close>, lines 131-133).\<close>

definition statsHasErrors :: "WebpackStats \<Rightarrow> bool" where
  "statsHasErrors json =
     (errors json \<noteq> []
      \<or> (case children json of
            None \<Rightarrow> False
          | Some cs \<Rightarrow> list_ex (\<lambda>c. c_errors c \<noteq> []) cs))"

text \<open>
  Lines 653-677: the failures are recorded and the build returns when the stats hold an
  error. The two calls that print the warnings and errors are left out: they change
  nothing the build returns.
\<close>

definition budgetStage :: "BudgetFailure list \<Rightarrow> WebpackStats \<Rightarrow> WebpackStats completion" where
  "budgetStage budgetFailures webpackStats =
     (case recordBudgetFailures budgetFailures webpackStats of
        (Some e, stats') \<Rightarrow> Throw e
      | (None, stats') \<Rightarrow>
          if statsHasErrors stats' then Return \<lparr>success = False, error = None\<rparr>
          else Normal stats')"

section \<open>The differential-loading branch (lines 352-677)\<close>

text \<open>
  The branch from the classification to the budgets. \<open>checkBudgets\<close>
  (\<^verbatim>\<open>utils/bundle-calculator\<close>) is a collaborator: the failures it finds for the
  process results. The table of bundle sizes that is printed between the two
  (lines 603-651) is left out: it changes no variable that is read later.
\<close>

definition differentialLoading ::
  "Executor \<Rightarrow> BuildEnv \<Rightarrow> (ProcessBundleResult list \<Rightarrow> BudgetFailure list)
     \<Rightarrow> WebpackStats \<Rightarrow> EmittedFiles list \<Rightarrow> filesystem
     \<Rightarrow> WebpackStats completion \<times> event list" where
  "differentialLoading ex env checkBudgets webpackStats emittedFiles d =
     (case classify env emittedFiles d of
        Inl e \<Rightarrow> (Throw e, [])
      | Inr st \<Rightarrow>
          (let (processActions, processRuntimeAction) =
                 splitActions (workerReplacements st) (actions st) ([], None)
           in case executorStage ex env (mainChunkId st) processActions
                     processRuntimeAction (disk st) of
                (Normal processResults, ev) \<Rightarrow>
                  (budgetStage (checkBudgets processResults) webpackStats, ev)
              | (Return out, ev) \<Rightarrow> (Return out, ev)
              | (Throw e, ev) \<Rightarrow> (Throw e, ev)))"


text \<open>Lines 366-502 on their own: the classification, the submission and the processing
  of the actions, with the process results or what was thrown.\<close>

definition classifyAndProcess ::
  "Executor \<Rightarrow> BuildEnv \<Rightarrow> EmittedFiles list \<Rightarrow> filesystem
     \<Rightarrow> js_value + ProcessBundleResult list" where
  "classifyAndProcess ex env emittedFiles d =
     (case classify env emittedFiles d of
        Inl e \<Rightarrow> Inl e
      | Inr st \<Rightarrow>
          (case splitActions (workerReplacements st) (actions st) ([], None) of
             (processActions, processRuntimeAction) \<Rightarrow>
               fst (processStage ex env processActions processRuntimeAction (disk st))))"

section \<open>The plugin that warns about CommonJS dependencies\<close>

text \<open>
  \<^verbatim>\<open>common-js-usage-warn-plugin.ts\<close>. The interface \<^verbatim>\<open>WebpackModule\<close> stands for the
  modules and for their dependency objects alike; \<open>wm_class\<close> is the class the
  \<^verbatim>\<open>instanceof\<close> tests look at. The objects form a finite tree here: an issuer chain
  ends.
\<close>

datatype dependency_class = CommonJsRequireDependency | AMDDefineDependency | OtherClass

datatype WebpackModule =
  WebpackModule
    (wm_class: dependency_class)
    (wm_name: "string option")
    (rawRequest: "string option")
    (dependencies: "WebpackModule list")
    (issuer: "WebpackModule option")
    (wm_module: "WebpackModule option")
    (userRequest: "string option")

record CommonJsUsageWarnPlugin =
  shownWarnings :: "string set"
  allowedDepedencies :: "string set"

record Compilation =
  comp_warnings :: "string list"

text \<open>The field initialisers and the constructor (lines 35-44).\<close>

definition newPlugin :: "string list option \<Rightarrow> CommonJsUsageWarnPlugin" where
  "newPlugin allowed =
     \<lparr>shownWarnings = {},
      allowedDepedencies =
        insert ''webpack/hot/dev-server'' (case allowed of None \<Rightarrow> {} | Some ds \<Rightarrow> set ds)\<rparr>"

text \<open>
  Modelled from the spec: \<^verbatim>\<open>addWarning\<close> of \<^verbatim>\<open>utils/webpack-diagnostics\<close> is not
  among the sources; it adds the message to the warnings of the compilation.
\<close>

definition addWarning :: "Compilation \<Rightarrow> string \<Rightarrow> Compilation" where
  "addWarning compilation w = compilation\<lparr>comp_warnings := comp_warnings compilation @ [w]\<rparr>"

text \<open>\<open>hasCommonJsDependencies\<close> (lines 103-115).\<close>

function hasCommonJsDependencies :: "WebpackModule list \<Rightarrow> bool \<Rightarrow> bool" where
  "hasCommonJsDependencies [] checkParentModules = False"
| "hasCommonJsDependencies (dep # rest) checkParentModules =
     (if wm_class dep = CommonJsRequireDependency \<or> wm_class dep = AMDDefineDependency
      then True
      else if (if checkParentModules
               then (case wm_module dep of
                       None \<Rightarrow> False
                     | Some m \<Rightarrow> hasCommonJsDependencies (dependencies m) False)
               else False)
      then True
      else hasCommonJsDependencies rest checkParentModules)"
  by pat_completeness auto
termination
  by (relation "measures [\<lambda>(ds, c). if c then 1 else 0, \<lambda>(ds, c). length ds]") auto

text \<open>\<^verbatim>\<open>s.split('/')\<close> and \<^verbatim>\<open>a.join('/')\<close>.\<close>

fun splitSlash :: "string \<Rightarrow> string list" where
  "splitSlash [] = [[]]"
| "splitSlash (c # cs) =
     (if c = CHR ''/'' then [] # splitSlash cs
      else (case splitSlash cs of
              [] \<Rightarrow> [[c]]
            | piece # pieces \<Rightarrow> (c # piece) # pieces))"

fun joinSlash :: "string list \<Rightarrow> string" where
  "joinSlash [] = []"
| "joinSlash [piece] = piece"
| "joinSlash (piece # pieces) = piece @ ''/'' @ joinSlash pieces"

text \<open>\<open>rawRequestToPackageName\<close> (lines 117-123).\<close>

definition rawRequestToPackageName :: "string \<Rightarrow> string" where
  "rawRequestToPackageName r =
     (if startsWith r ''@'' then joinSlash (take 2 (splitSlash r))
      else (case take 1 (splitSlash r) of [] \<Rightarrow> [] | piece # pieces \<Rightarrow> piece))"

text \<open>Lines 78-81: the issuer at the top of a chain of issuers.\<close>

fun topIssuer :: "WebpackModule \<Rightarrow> WebpackModule" where
  "topIssuer (WebpackModule c n r ds iss md ur) =
     (case iss of
        None \<Rightarrow> WebpackModule c n r ds iss md ur
      | Some parent \<Rightarrow> topIssuer parent)"

text \<open>Lines 87-89: the text of the warning. A template prints \<^verbatim>\<open>undefined\<close> for a
  missing user request.\<close>

definition warningText :: "string option \<Rightarrow> string \<Rightarrow> string" where
  "warningText issuerRequest r =
     (case issuerRequest of None \<Rightarrow> ''undefined'' | Some u \<Rightarrow> u)
     @ '' depends on '' @ [CHR 0x27] @ r @ [CHR 0x27] @ ''. ''
     @ ''CommonJS or AMD dependencies can cause optimization bailouts.'' @ [CHR 0x0A]
     @ ''For more info see: https://angular.io/guide/build#configuring-commonjs-dependencies''"

text \<open>
  Lines 49-98: the body of the loop over the modules, for one module. \<open>isAbsolute\<close> is
  \<^verbatim>\<open>path.isAbsolute\<close> of the host platform.
\<close>

definition checkModule ::
  "(string \<Rightarrow> bool) \<Rightarrow> WebpackModule
     \<Rightarrow> CommonJsUsageWarnPlugin \<times> Compilation \<Rightarrow> CommonJsUsageWarnPlugin \<times> Compilation" where
  "checkModule isAbsolute m pc =
     (case rawRequest m of
        None \<Rightarrow> pc
      | Some r \<Rightarrow>
          if r = [] \<or> startsWith r ''.'' \<or> isAbsolute r
             \<or> r \<in> allowedDepedencies (fst pc)
             \<or> rawRequestToPackageName r \<in> allowedDepedencies (fst pc)
             \<or> startsWith r ''@angular/common/locales/''
          then pc
          else if hasCommonJsDependencies (dependencies m) False
          then
            (if (case issuer m of
                   None \<Rightarrow> False
                 | Some i \<Rightarrow>
                     (case issuer i of
                        None \<Rightarrow> False
                      | Some ii \<Rightarrow> hasCommonJsDependencies (dependencies ii) True))
             then pc
             else
               (case issuer m of
                  None \<Rightarrow> pc
                | Some i \<Rightarrow>
                    if wm_name (topIssuer i) = Some ''main''
                       \<and> \<not> (case userRequest i of
                               None \<Rightarrow> False
                             | Some u \<Rightarrow> str_includes u ''webpack-dev-server'')
                    then
                      (let warning = warningText (userRequest i) r
                       in if warning \<notin> shownWarnings (fst pc)
                          then (fst pc\<lparr>shownWarnings := insert warning (shownWarnings (fst pc))\<rparr>,
                                addWarning (snd pc) warning)
                          else pc)
                    else pc))
          else pc)"

text \<open>Lines 48-99: the handler of \<^verbatim>\<open>finishModules\<close>.\<close>

fun finishModules ::
  "(string \<Rightarrow> bool) \<Rightarrow> WebpackModule list
     \<Rightarrow> CommonJsUsageWarnPlugin \<times> Compilation \<Rightarrow> CommonJsUsageWarnPlugin \<times> Compilation" where
  "finishModules isAbsolute [] pc = pc"
| "finishModules isAbsolute (m # rest) pc =
     finishModules isAbsolute rest (checkModule isAbsolute m pc)"

text \<open>
  A watch session: the same plugin instance handles one fresh compilation per rebuild,
  each with the modules it finished.
\<close>

fun watchSession ::
  "(string \<Rightarrow> bool) \<Rightarrow> WebpackModule list list \<Rightarrow> CommonJsUsageWarnPlugin
     \<Rightarrow> CommonJsUsageWarnPlugin \<times> Compilation list" where
  "watchSession isAbsolute [] plugin = (plugin, [])"
| "watchSession isAbsolute (modules # rebuilds) plugin =
     (let (plugin1, compilation) =
            finishModules isAbsolute modules (plugin, \<lparr>comp_warnings = []\<rparr>);
          (plugin2, compilations) = watchSession isAbsolute rebuilds plugin1
      in (plugin2, compilation # compilations))"


section \<open>A small build, for concrete runs\<close>

text \<open>
  An environment with POSIX paths, and an executor that answers every action at once and
  in the order of submission: the result of an action carries the chunk id of the action,
  the bundle as the original file and, unless the action only optimises, a downlevelled
  copy under the ES5 name, which it writes. \<open>inl\<close> is the sequence \<open>inlineAll\<close>
  returns and \<open>cp\<close> what \<open>copyAssets\<close> throws.
\<close>

definition demoEnv :: "bool \<Rightarrow> bool \<Rightarrow> BuildEnv" where
  "demoEnv sri inl =
     \<lparr>outputPath = ''dist'', baseOutputPath = ''dist'',
      outputPaths = [''dist/fr'', ''dist/de''],
      scriptsEntryPointName = [''scripts''],
      actionOptions = makeActionOptions True False False False sri,
      shouldInline = inl, verbose = False, i18nMissingTranslation = None,
      browsers = [''ie 11''],
      pathJoin = (\<lambda>a b. a @ ''/'' @ b),
      pathBasename = (\<lambda>p. last (splitSlash p)),
      pathRelative = (\<lambda>a p. drop (Suc (length a)) p)\<rparr>"

definition demoResult :: "ProcessBundleOptions \<Rightarrow> ProcessBundleResult" where
  "demoResult a =
     \<lparr>r_name = name a,
      r_integrity = None,
      original =
        (if ignoreOriginal a then None
         else Some \<lparr>f_filename = filename a, f_size = length (code a), f_map = None\<rparr>),
      downlevel =
        (if optimizeOnly a then None
         else Some \<lparr>f_filename = toEs5Name (filename a), f_size = length (code a),
                    f_map = None\<rparr>)\<rparr>"

definition demoWrite :: "ProcessBundleOptions \<Rightarrow> filesystem \<Rightarrow> filesystem" where
  "demoWrite a d =
     (if optimizeOnly a then d else d @ [(toEs5Name (filename a), code a)])"

definition demoExecutor :: "InlineResult list \<times> js_value option \<Rightarrow> js_value option \<Rightarrow> Executor" where
  "demoExecutor inl cp =
     \<lparr>processAll = (\<lambda>as d. ((map demoResult as, None), fold demoWrite as d)),
      inlineAll = (\<lambda>ias. inl),
      processBundle = (\<lambda>a d. (Inr (demoResult a), demoWrite a d)),
      copyAssets = (\<lambda>ignored outs. cp)\<rparr>"

definition demoFile :: "string \<Rightarrow> string \<Rightarrow> string \<Rightarrow> EmittedFiles" where
  "demoFile i n f =
     \<lparr>ef_id = Some i, ef_name = Some n, ef_file = f, ef_asset = False,
      ef_extension = ''.js''\<rparr>"


definition partitionDemoFiles :: "EmittedFiles list" where
  "partitionDemoFiles =
     [\<lparr>ef_id = None, ef_name = None, ef_file = ''logo.png'', ef_asset = True,
       ef_extension = ''.png''\<rparr>,
      \<lparr>ef_id = Some ''3'', ef_name = Some ''styles'', ef_file = ''styles.css'',
       ef_asset = False, ef_extension = ''.css''\<rparr>,
      \<lparr>ef_id = Some ''3'', ef_name = Some ''styles'', ef_file = ''styles.css'',
       ef_asset = False, ef_extension = ''.css''\<rparr>,
      \<lparr>ef_id = None, ef_name = None, ef_file = ''0.worker.js'', ef_asset = True,
       ef_extension = ''.js''\<rparr>]"

definition duplicateDemoFiles :: "EmittedFiles list" where
  "duplicateDemoFiles =
     [demoFile ''1'' ''main'' ''main-es2015.js'',
      demoFile ''1'' ''main'' ''main-es2015.js'',
      demoFile ''0'' ''runtime'' ''runtime-es2015.js'',
      demoFile ''1'' ''main'' ''main-es2015.js'']"

definition duplicateDemoDisk :: filesystem where
  "duplicateDemoDisk = [(''dist/main-es2015.js'', ''M''), (''dist/runtime-es2015.js'', ''R'')]"

definition vendorDemoFiles :: "EmittedFiles list" where
  "vendorDemoFiles =
     [demoFile ''1'' ''main'' ''main-es2015.js'',
      demoFile ''2'' ''vendor'' ''vendor-es2015.js'',
      demoFile ''3'' ''vendor'' ''vendor-b-es2015.js'',
      demoFile ''4'' ''main'' ''main-b-es2015.js'']"

definition vendorDemoDisk :: filesystem where
  "vendorDemoDisk =
     [(''dist/main-es2015.js'', ''M''), (''dist/vendor-es2015.js'', ''V''),
      (''dist/vendor-b-es2015.js'', ''W''), (''dist/main-b-es2015.js'', ''N'')]"

definition runtimeDemoFiles :: "EmittedFiles list" where
  "runtimeDemoFiles =
     [demoFile ''0'' ''runtime'' ''runtime-es2015.js'',
      demoFile ''1'' ''main'' ''main-es2015.js'']"

definition sriDemoState :: ClassifyState where
  "sriDemoState = projr (classify (demoEnv True False) runtimeDemoFiles duplicateDemoDisk)"

definition setLocaleDemoDisk :: filesystem where
  "setLocaleDemoDisk = [(''dist/runtime-es2015.js'', ''R''), (''dist/main-es5.js'', ''M'')]"

definition setLocaleDemoResults :: "ProcessBundleResult list" where
  "setLocaleDemoResults =
     [\<lparr>r_name = Some ''0'', r_integrity = None,
       original = Some \<lparr>f_filename = ''dist/runtime-es2015.js'', f_size = 1, f_map = None\<rparr>,
       downlevel = None\<rparr>,
      \<lparr>r_name = Some ''1'', r_integrity = None, original = None,
       downlevel = Some \<lparr>f_filename = ''dist/main-es5.js'', f_size = 1, f_map = None\<rparr>\<rparr>]"

definition localeDemoResults :: "InlineResult list" where
  "localeDemoResults =
     [\<lparr>ir_file = ''fr/main-es2015.js'', ir_count = 3, diagnostics = []\<rparr>,
      \<lparr>ir_file = ''de/main-es2015.js'', ir_count = 2,
       diagnostics = [\<lparr>d_type = DiagError, d_message = ''No translation found''\<rparr>]\<rparr>,
      \<lparr>ir_file = ''fr/main-es5.js'', ir_count = 3,
       diagnostics = [\<lparr>d_type = DiagWarning, d_message = ''Duplicate message''\<rparr>]\<rparr>]"

definition mainDemoAction :: ProcessBundleOptions where
  "mainDemoAction =
     makeAction (makeActionOptions True False False False False)
       (demoFile ''1'' ''main'' ''main-es2015.js'') ''dist/main-es2015.js'' ''M'' None"


definition lodashDemo :: WebpackModule where
  "lodashDemo =
     WebpackModule OtherClass None (Some ''lodash'')
       [WebpackModule CommonJsRequireDependency None None [] None None None]
       (Some (WebpackModule OtherClass (Some ''main'') (Some ''./src/main.ts'') [] None None
                (Some ''/app/src/main.ts'')))
       None (Some ''/app/node_modules/lodash/lodash.js'')"

definition posixIsAbsolute :: "string \<Rightarrow> bool" where
  "posixIsAbsolute p = startsWith p ''/''"


definition emptyStats :: WebpackStats where
  "emptyStats = \<lparr>warnings = [], errors = [], children = None\<rparr>"

definition errorDemoResult :: InlineResult where
  "errorDemoResult =
     \<lparr>ir_file = ''de/main-es2015.js'', ir_count = 2,
      diagnostics = [\<lparr>d_type = DiagError, d_message = ''No translation found''\<rparr>]\<rparr>"

definition mainDemoDisk :: filesystem where
  "mainDemoDisk = [(''dist/main-es2015.js'', ''M''), (''dist/main-es5.js'', ''M'')]"

definition workerDemoDisk :: filesystem where
  "workerDemoDisk = [(''dist/0.worker.js'', ''W''), (''dist/common-es2015.js'', ''C'')]"

definition workerDemoResults :: "ProcessBundleResult list" where
  "workerDemoResults =
     [\<lparr>r_name = None, r_integrity = None,
       original = Some \<lparr>f_filename = ''dist/0.worker.js'', f_size = 1, f_map = None\<rparr>,
       downlevel = None\<rparr>,
      \<lparr>r_name = Some ''5'', r_integrity = None,
       original = Some \<lparr>f_filename = ''dist/common-es2015.js'', f_size = 1, f_map = None\<rparr>,
       downlevel = None\<rparr>]"

section \<open>Notions for stating the properties\<close>

text \<open>
  The files that reach the part of the loop that handles scripts (line 399): not an asset
  other than a worker, with the extension \<^verbatim>\<open>.js\<close>, and not a bundle of the
  \<^verbatim>\<open>scripts\<close> option. \<open>passThrough\<close> are the files pushed on \<^verbatim>\<open>files\<close>, and
  \<open>workerAsset\<close> the assets recorded as worker replacements.
\<close>

definition skippedAsset :: "EmittedFiles \<Rightarrow> bool" where
  "skippedAsset f = (ef_asset f \<and> \<not> endsWith (ef_file f) ''.worker.js'')"

definition workerAsset :: "EmittedFiles \<Rightarrow> bool" where
  "workerAsset f = (ef_asset f \<and> endsWith (ef_file f) ''.worker.js'')"

definition passThrough :: "BuildEnv \<Rightarrow> EmittedFiles \<Rightarrow> bool" where
  "passThrough env f =
     (\<not> skippedAsset f \<and> (ef_extension f \<noteq> ''.js'' \<or> isScriptsEntry env f))"

definition processable :: "BuildEnv \<Rightarrow> EmittedFiles \<Rightarrow> bool" where
  "processable env f =
     (\<not> skippedAsset f \<and> ef_extension f = ''.js'' \<and> \<not> isScriptsEntry env f)"

text \<open>The lists behind the two variables that start out undefined.\<close>

definition filesList :: "ClassifyState \<Rightarrow> EmittedFiles list" where
  "filesList st = (case files st of None \<Rightarrow> [] | Some fl \<Rightarrow> fl)"

definition workerList :: "ClassifyState \<Rightarrow> (string \<times> string) list" where
  "workerList st = (case workerReplacements st of None \<Rightarrow> [] | Some ws \<Rightarrow> ws)"

text \<open>The first record of every path that is not in \<open>sn\<close>, in the order of the list.\<close>

fun firstByFile :: "string set \<Rightarrow> EmittedFiles list \<Rightarrow> EmittedFiles list" where
  "firstByFile sn [] = []"
| "firstByFile sn (f # rest) =
     (if ef_file f \<in> sn then firstByFile sn rest
      else f # firstByFile (insert (ef_file f) sn) rest)"

text \<open>The deduplicated emitted scripts.\<close>

definition scriptsOf :: "BuildEnv \<Rightarrow> EmittedFiles list \<Rightarrow> EmittedFiles list" where
  "scriptsOf env emittedFiles = firstByFile {} (filter (processable env) emittedFiles)"

text \<open>
  The chunk id of the last script named \<^verbatim>\<open>vendor\<close>; without such a script, the chunk id
  the variable holds if that is truthy, and else that of the first script named
  \<^verbatim>\<open>main\<close>.
\<close>

definition mainChunkFrom :: "string option \<Rightarrow> EmittedFiles list \<Rightarrow> string option" where
  "mainChunkFrom mc scripts =
     (case filter (\<lambda>f. ef_name f = Some ''vendor'') scripts of
        v # vs \<Rightarrow> ef_id (last (v # vs))
      | [] \<Rightarrow>
          if truthy mc then mc
          else (case filter (\<lambda>f. ef_name f = Some ''main'') scripts of
                  [] \<Rightarrow> mc
                | m # ms \<Rightarrow> ef_id m))"

text \<open>The number of variants of a process result that are present.\<close>

definition variants :: "ProcessBundleResult \<Rightarrow> nat" where
  "variants r =
     (if original r = None then 0 else 1) + (if downlevel r = None then 0 else 1)"

text \<open>
  The files a process result names (its variants and their source maps), and what a run
  of events shows: the calls of \<open>copyAssets\<close> with their arguments and the inline
  actions submitted.
\<close>

fun copyCalls :: "event list \<Rightarrow> (string list \<times> string list) list" where
  "copyCalls [] = []"
| "copyCalls (CopyAssetsCalled ignored outs # evs) = (ignored, outs) # copyCalls evs"
| "copyCalls (e # evs) = copyCalls evs"

fun inlineActionsCalled :: "event list \<Rightarrow> InlineOptions list" where
  "inlineActionsCalled [] = []"
| "inlineActionsCalled (InlineAllCalled ias # evs) = ias @ inlineActionsCalled evs"
| "inlineActionsCalled (e # evs) = inlineActionsCalled evs"

definition bundleFiles :: "ProcessBundleFile option \<Rightarrow> string list" where
  "bundleFiles variant =
     (case variant of
        None \<Rightarrow> []
      | Some bundle \<Rightarrow>
          f_filename bundle # (case f_map bundle of None \<Rightarrow> [] | Some m \<Rightarrow> [m_filename m]))"

definition resultFiles :: "ProcessBundleResult \<Rightarrow> string list" where
  "resultFiles r = bundleFiles (original r) @ bundleFiles (downlevel r)"

text \<open>The inline results a run of events has drawn, and the stops of the executor in it.\<close>

fun drawnResults :: "event list \<Rightarrow> InlineResult list" where
  "drawnResults [] = []"
| "drawnResults (InlineDrawn r # evs) = r # drawnResults evs"
| "drawnResults (e # evs) = drawnResults evs"

definition stops :: "event list \<Rightarrow> nat" where
  "stops evs = length (filter (\<lambda>e. e = ExecutorStop) evs)"

text \<open>The budget messages a list of failures pushes for one severity.\<close>

definition budgetMessages :: "ThresholdSeverity \<Rightarrow> BudgetFailure list \<Rightarrow> string list" where
  "budgetMessages sev failures =
     map (\<lambda>f. ''budgets: '' @ message f) (filter (\<lambda>f. severity f = sev) failures)"

section \<open>Properties of the classification\<close>

subsection \<open>One iteration\<close>


lemma processScript_Inr:
  assumes "processScript env f st = Inr st'"
  shows "seen st' = seen st" and "mainChunkId st' = mainChunkId st"
    and "files st' = files st" and "workerReplacements st' = workerReplacements st"
    and "\<exists>a. actions st' = actions st @ [a] \<and> name a = ef_id f
             \<and> runtime a = startsWith (ef_file f) ''runtime''
             \<and> integrityAlgorithm a = integrityAlgorithm (actionOptions env)"
    and "moduleFiles st' = moduleFiles st @ (if startsWith (ef_file f) ''polyfills-es5'' then [] else [f])"
  using assms
  by (auto simp: processScript_def Let_def makeAction_def split: sum.splits prod.splits if_splits)

lemma setMainChunkId_Inr:
  assumes "setMainChunkId f st = Inr st'"
  shows "seen st' = seen st" and "actions st' = actions st"
    and "files st' = files st" and "workerReplacements st' = workerReplacements st"
    and "moduleFiles st' = moduleFiles st"
    and "mainChunkId st' =
           (if ef_name f = Some ''vendor'' \<or> (\<not> truthy (mainChunkId st) \<and> ef_name f = Some ''main'')
            then ef_id f else mainChunkId st)"
    and "ef_name f = Some ''vendor'' \<or> (\<not> truthy (mainChunkId st) \<and> ef_name f = Some ''main'')
           \<Longrightarrow> ef_id f \<noteq> None"
  using assms
  by (auto simp: setMainChunkId_def split: if_splits option.splits)

lemma recordWorker_fields [simp]:
  "seen (recordWorker f st) = seen st"
  "actions (recordWorker f st) = actions st"
  "files (recordWorker f st) = files st"
  "mainChunkId (recordWorker f st) = mainChunkId st"
  "moduleFiles (recordWorker f st) = moduleFiles st"
  by (simp_all add: recordWorker_def)

lemma classifyFile_old:
  assumes "\<not> processable env f \<or> ef_file f \<in> seen st" and "classifyFile env f st = Inr st'"
  shows "seen st' = seen st" and "mainChunkId st' = mainChunkId st" and "actions st' = actions st"
    and "moduleFiles st' = moduleFiles st"
  using assms
  by (auto simp: classifyFile_def processable_def skippedAsset_def Let_def split: if_splits)

lemma classifyFile_new:
  assumes "processable env f" and "ef_file f \<notin> seen st" and "classifyFile env f st = Inr st'"
  shows "seen st' = insert (ef_file f) (seen st)"
    and "mainChunkId st' =
           (if ef_name f = Some ''vendor'' \<or> (\<not> truthy (mainChunkId st) \<and> ef_name f = Some ''main'')
            then ef_id f else mainChunkId st)"
    and "ef_name f = Some ''vendor'' \<or> (\<not> truthy (mainChunkId st) \<and> ef_name f = Some ''main'')
           \<Longrightarrow> ef_id f \<noteq> None"
    and "\<exists>a. actions st' = actions st @ [a] \<and> name a = ef_id f
             \<and> runtime a = startsWith (ef_file f) ''runtime''
             \<and> integrityAlgorithm a = integrityAlgorithm (actionOptions env)"
    and "moduleFiles st' = moduleFiles st @ (if startsWith (ef_file f) ''polyfills-es5'' then [] else [f])"
proof -
  let ?st0 = "if ef_asset f then recordWorker f st else st"
  let ?st1 = "?st0\<lparr>seen := insert (ef_file f) (seen ?st0)\<rparr>"
  from assms obtain st2 where
    m: "setMainChunkId f ?st1 = Inr st2" and p: "processScript env f st2 = Inr st'"
    by (auto simp: classifyFile_def processable_def skippedAsset_def Let_def split: if_splits sum.splits)
  note M = setMainChunkId_Inr[OF m] and P = processScript_Inr[OF p]
  have s0 [simp]: "seen ?st0 = seen st" "actions ?st0 = actions st"
    "mainChunkId ?st0 = mainChunkId st" "moduleFiles ?st0 = moduleFiles st"
    by simp_all
  show "seen st' = insert (ef_file f) (seen st)" using M(1) P(1) by simp
  show "mainChunkId st' =
           (if ef_name f = Some ''vendor'' \<or> (\<not> truthy (mainChunkId st) \<and> ef_name f = Some ''main'')
            then ef_id f else mainChunkId st)" using M(6) P(2) by simp
  show "ef_id f \<noteq> None" if "ef_name f = Some ''vendor'' \<or> (\<not> truthy (mainChunkId st) \<and> ef_name f = Some ''main'')"
    using M(7) that by simp
  show "\<exists>a. actions st' = actions st @ [a] \<and> name a = ef_id f
             \<and> runtime a = startsWith (ef_file f) ''runtime''
             \<and> integrityAlgorithm a = integrityAlgorithm (actionOptions env)"
    using M(2) P(5) by simp
  show "moduleFiles st' = moduleFiles st @ (if startsWith (ef_file f) ''polyfills-es5'' then [] else [f])"
    using M(5) P(6) by simp
qed

lemma mainChunkFrom_Cons:
  assumes "ef_name f = Some ''vendor'' \<or> (\<not> truthy mc \<and> ef_name f = Some ''main'') \<Longrightarrow> truthy (ef_id f)"
  shows "mainChunkFrom mc (f # scripts) =
         mainChunkFrom (if ef_name f = Some ''vendor'' \<or> (\<not> truthy mc \<and> ef_name f = Some ''main'')
                        then ef_id f else mc) scripts"
  using assms
  by (auto simp: mainChunkFrom_def split: list.splits)

lemma classifyAll_seen:
  "classifyAll env fs st = Inr st' \<Longrightarrow>
   seen st' = seen st \<union> ef_file ` {f \<in> set fs. processable env f}"
proof (induction fs arbitrary: st)
  case Nil
  then show ?case by simp
next
  case (Cons f fs)
  from Cons.prems obtain st1 where
    step: "classifyFile env f st = Inr st1" and rest: "classifyAll env fs st1 = Inr st'"
    by (auto split: sum.splits)
  have "seen st1 = (if processable env f then insert (ef_file f) (seen st) else seen st)"
    using classifyFile_old(1)[OF _ step] classifyFile_new(1)[OF _ _ step] by (cases "ef_file f \<in> seen st") auto
  with Cons.IH[OF rest] show ?case by auto
qed

lemma classifyAll_main:
  "classifyAll env fs st = Inr st' \<Longrightarrow> \<forall>f \<in> set fs. ef_id f \<noteq> Some [] \<Longrightarrow>
   mainChunkId st' = mainChunkFrom (mainChunkId st) (firstByFile (seen st) (filter (processable env) fs))"
proof (induction fs arbitrary: st)
  case Nil
  then show ?case by (simp add: mainChunkFrom_def)
next
  case (Cons f fs)
  from Cons.prems obtain st1 where
    step: "classifyFile env f st = Inr st1" and rest: "classifyAll env fs st1 = Inr st'"
    by (auto split: sum.splits)
  from Cons.prems have ids: "\<forall>f \<in> set fs. ef_id f \<noteq> Some []" and idf: "ef_id f \<noteq> Some []" by simp_all
  note IH = Cons.IH[OF rest ids]
  show ?case
  proof (cases "processable env f \<and> ef_file f \<notin> seen st")
    case False
    then have "seen st1 = seen st" "mainChunkId st1 = mainChunkId st"
      using classifyFile_old[OF _ step] by auto
    with IH False show ?thesis by auto
  next
    case True
    note N = classifyFile_new[OF conjunct1[OF True] conjunct2[OF True] step]
    let ?assign = "ef_name f = Some ''vendor'' \<or> (\<not> truthy (mainChunkId st) \<and> ef_name f = Some ''main'')"
    have "truthy (ef_id f)" if "?assign"
      using N(3)[OF that] idf by (cases "ef_id f") (auto simp: truthy_def)
    then have "mainChunkFrom (mainChunkId st) (f # firstByFile (seen st1) (filter (processable env) fs))
               = mainChunkFrom (mainChunkId st1) (firstByFile (seen st1) (filter (processable env) fs))"
      using mainChunkFrom_Cons[of f "mainChunkId st"] N(2) by simp
    with IH True N(1) show ?thesis by simp
  qed
qed

lemma classifyFile_lists:
  assumes "classifyFile env f st = Inr st'"
  shows "filesList st' = filesList st @ (if passThrough env f then [f] else [])"
    and "workerList st' =
           workerList st @ (if workerAsset f then [(ef_file f, toEs5Name (ef_file f))] else [])"
proof -
  let ?st0 = "if ef_asset f then recordWorker f st else st"
  have w0: "workerList ?st0 =
              workerList st @ (if workerAsset f then [(ef_file f, toEs5Name (ef_file f))] else [])"
    if "\<not> skippedAsset f"
    using that by (auto simp: workerList_def recordWorker_def workerAsset_def skippedAsset_def)
  have f0: "filesList ?st0 = filesList st"
    by (simp add: filesList_def recordWorker_def)
  consider (skip) "skippedAsset f" | (pass) "passThrough env f"
    | (old) "processable env f" "ef_file f \<in> seen st"
    | (new) "processable env f" "ef_file f \<notin> seen st"
    by (auto simp: passThrough_def processable_def)
  then have "filesList st' = filesList st @ (if passThrough env f then [f] else [])
       \<and> workerList st' =
           workerList st @ (if workerAsset f then [(ef_file f, toEs5Name (ef_file f))] else [])"
  proof cases
    case skip
    with assms have "st' = st" by (simp add: classifyFile_def skippedAsset_def)
    with skip show ?thesis by (auto simp: passThrough_def workerAsset_def skippedAsset_def)
  next
    case pass
    with assms have "st' = ?st0\<lparr>files := Some (filesList ?st0 @ [f])\<rparr>"
      by (auto simp: classifyFile_def passThrough_def skippedAsset_def Let_def filesList_def)
    then have "filesList st' = filesList ?st0 @ [f]" "workerList st' = workerList ?st0"
      by (simp_all add: filesList_def workerList_def)
    with pass w0 f0 show ?thesis by (simp add: passThrough_def)
  next
    case old
    with assms have "st' = ?st0"
      by (auto simp: classifyFile_def processable_def skippedAsset_def Let_def split: if_splits)
    with old w0 f0 show ?thesis by (simp add: passThrough_def processable_def)
  next
    case new
    let ?st1 = "?st0\<lparr>seen := insert (ef_file f) (seen ?st0)\<rparr>"
    from assms new obtain st2 where
      m: "setMainChunkId f ?st1 = Inr st2" and p: "processScript env f st2 = Inr st'"
      by (auto simp: classifyFile_def processable_def skippedAsset_def Let_def
               split: if_splits sum.splits)
    note M = setMainChunkId_Inr[OF m] and P = processScript_Inr[OF p]
    have "filesList st' = filesList ?st0" "workerList st' = workerList ?st0"
      using M(3,4) P(3,4) by (simp_all add: filesList_def workerList_def)
    with new w0 f0 show ?thesis by (simp add: passThrough_def processable_def)
  qed
  then show "filesList st' = filesList st @ (if passThrough env f then [f] else [])"
    and "workerList st' =
           workerList st @ (if workerAsset f then [(ef_file f, toEs5Name (ef_file f))] else [])"
    by simp_all
qed

lemma classifyAll_lists:
  "classifyAll env fs st = Inr st' \<Longrightarrow>
   filesList st' = filesList st @ filter (passThrough env) fs
   \<and> workerList st' =
       workerList st @ map (\<lambda>f. (ef_file f, toEs5Name (ef_file f))) (filter workerAsset fs)"
proof (induction fs arbitrary: st)
  case Nil
  then show ?case by simp
next
  case (Cons f fs)
  from Cons.prems obtain st1 where
    step: "classifyFile env f st = Inr st1" and rest: "classifyAll env fs st1 = Inr st'"
    by (auto split: sum.splits)
  from Cons.IH[OF rest] classifyFile_lists[OF step] show ?case by simp
qed

lemma classifyAll_actions:
  "classifyAll env fs st = Inr st' \<Longrightarrow>
   \<exists>new. actions st' = actions st @ new
     \<and> map name new = map ef_id (firstByFile (seen st) (filter (processable env) fs))
     \<and> map runtime new = map (\<lambda>f. startsWith (ef_file f) ''runtime'')
                            (firstByFile (seen st) (filter (processable env) fs))
     \<and> (\<forall>a \<in> set new. integrityAlgorithm a = integrityAlgorithm (actionOptions env))"
proof (induction fs arbitrary: st)
  case Nil
  then show ?case by simp
next
  case (Cons f fs)
  from Cons.prems obtain st1 where
    step: "classifyFile env f st = Inr st1" and rest: "classifyAll env fs st1 = Inr st'"
    by (auto split: sum.splits)
  from Cons.IH[OF rest] obtain new where
    IH: "actions st' = actions st1 @ new"
      "map name new = map ef_id (firstByFile (seen st1) (filter (processable env) fs))"
      "map runtime new = map (\<lambda>f. startsWith (ef_file f) ''runtime'')
                            (firstByFile (seen st1) (filter (processable env) fs))"
      "\<forall>a \<in> set new. integrityAlgorithm a = integrityAlgorithm (actionOptions env)"
    by blast
  show ?case
  proof (cases "processable env f \<and> ef_file f \<notin> seen st")
    case False
    then have "seen st1 = seen st" "actions st1 = actions st"
      using classifyFile_old[OF _ step] by auto
    with IH False show ?thesis by auto
  next
    case True
    note N = classifyFile_new[OF conjunct1[OF True] conjunct2[OF True] step]
    from N(4) obtain a where
      a: "actions st1 = actions st @ [a]" "name a = ef_id f"
        "runtime a = startsWith (ef_file f) ''runtime''"
        "integrityAlgorithm a = integrityAlgorithm (actionOptions env)"
      by blast
    have "actions st' = actions st @ (a # new)" using IH(1) a(1) by simp
    moreover have "map name (a # new)
                     = map ef_id (firstByFile (seen st) (filter (processable env) (f # fs)))"
      using True IH(2) a(2) N(1) by simp
    moreover have "map runtime (a # new)
                     = map (\<lambda>f. startsWith (ef_file f) ''runtime'')
                         (firstByFile (seen st) (filter (processable env) (f # fs)))"
      using True IH(3) a(3) N(1) by simp
    moreover have "\<forall>b \<in> set (a # new). integrityAlgorithm b = integrityAlgorithm (actionOptions env)"
      using IH(4) a(4) by simp
    ultimately show ?thesis by blast
  qed
qed

lemma firstByFile_paths:
  "distinct (map ef_file (firstByFile sn fs))
   \<and> set (map ef_file (firstByFile sn fs)) = ef_file ` set fs - sn"
  by (induction fs arbitrary: sn) auto

lemma scriptsOf_paths:
  "distinct (map ef_file (scriptsOf env fs))
   \<and> set (map ef_file (scriptsOf env fs)) = ef_file ` {f \<in> set fs. processable env f}"
  using firstByFile_paths[of "{}" "filter (processable env) fs"]
  by (simp add: scriptsOf_def)

subsection \<open>The groups of the classification\<close>

text \<open>
  C6, as stated: the classification is a partition of the emitted paths, deduplicated
  by path, into the files passed through, the scripts and the worker assets. It fails
  on an image, a style sheet that is listed twice and a worker script: the style sheet
  is passed through twice, the image is in no group, and the worker script is both a
  worker asset and a processed script.
\<close>

theorem classify_partition_counterexample:
  "(case classify (demoEnv False False) partitionDemoFiles [(''dist/0.worker.js'', ''W'')] of
      Inl e \<Rightarrow> False
    | Inr st \<Rightarrow>
        map ef_file (filesList st) = [''styles.css'', ''styles.css'']
        \<and> ''logo.png'' \<notin> set (map ef_file (filesList st)) \<union> seen st \<union> set (map fst (workerList st))
        \<and> ''0.worker.js'' \<in> seen st \<inter> set (map fst (workerList st))
        \<and> map filename (actions st) = [''dist/0.worker.js''])"
  by code_simp

text \<open>
  C6, amended: a classification that completes yields
  \<^item> as files passed through, every record (duplicates included) that is not a plain
    asset and is either no \<^verbatim>\<open>.js\<close> file or a bundle of the \<^verbatim>\<open>scripts\<close> option;
  \<^item> as worker replacements, one pair for every record of a worker asset;
  \<^item> as actions, exactly one for every path among the remaining \<^verbatim>\<open>.js\<close> records
    (worker assets among them), in the order of the first records of the paths, however
    often a path is listed.
  An asset that is no worker script is in none of the groups.
\<close>

theorem classify_groups:
  assumes "classify env emittedFiles d = Inr st"
  shows "filesList st = filter (passThrough env) emittedFiles
    \<and> workerList st
        = map (\<lambda>f. (ef_file f, toEs5Name (ef_file f))) (filter workerAsset emittedFiles)
    \<and> map name (actions st) = map ef_id (scriptsOf env emittedFiles)
    \<and> distinct (map ef_file (scriptsOf env emittedFiles))
    \<and> set (map ef_file (scriptsOf env emittedFiles))
        = ef_file ` {f \<in> set emittedFiles. processable env f}
    \<and> length (actions st) = card (ef_file ` {f \<in> set emittedFiles. processable env f})"
proof -
  from assms have run: "classifyAll env emittedFiles (initialState d) = Inr st"
    by (simp add: classify_def)
  have init: "filesList (initialState d) = []" "workerList (initialState d) = []"
    "actions (initialState d) = []" "seen (initialState d) = {}"
    by (simp_all add: initialState_def filesList_def workerList_def)
  from classifyAll_actions[OF run] init
  have names: "map name (actions st) = map ef_id (scriptsOf env emittedFiles)"
    by (auto simp: scriptsOf_def)
  note paths = scriptsOf_paths[of env emittedFiles]
  have "length (actions st) = length (map ef_file (scriptsOf env emittedFiles))"
    using names by (metis length_map)
  also have "\<dots> = card (set (map ef_file (scriptsOf env emittedFiles)))"
    using conjunct1[OF paths] by (rule distinct_card[symmetric])
  finally have "length (actions st) = card (ef_file ` {f \<in> set emittedFiles. processable env f})"
    using paths by simp
  with classifyAll_lists[OF run] init names paths show ?thesis by simp
qed

theorem classify_groups_witness:
  "classify (demoEnv False False) duplicateDemoFiles duplicateDemoDisk
     = Inr (projr (classify (demoEnv False False) duplicateDemoFiles duplicateDemoDisk))
   \<and> map name (actions (projr (classify (demoEnv False False) duplicateDemoFiles
                                  duplicateDemoDisk)))
       = [Some ''1'', Some ''0'']
   \<and> filesList (projr (classify (demoEnv False False) duplicateDemoFiles duplicateDemoDisk)) = []"
proof -
  let ?r = "classify (demoEnv False False) duplicateDemoFiles duplicateDemoDisk"
  have "\<not> isl ?r" by code_simp
  then have run: "?r = Inr (projr ?r)" by simp
  have scripts: "map ef_id (scriptsOf (demoEnv False False) duplicateDemoFiles)
                   = [Some ''1'', Some ''0'']"
    by code_simp
  have pass: "filter (passThrough (demoEnv False False)) duplicateDemoFiles = []"
    by code_simp
  from classify_groups[OF run] scripts pass run show ?thesis by simp
qed

subsection \<open>The main chunk id\<close>

text \<open>
  C7, as stated: the main chunk id is the chunk id of the first script named
  \<^verbatim>\<open>vendor\<close>, also where several such scripts are emitted. It fails for two scripts
  named \<^verbatim>\<open>vendor\<close> with the chunk ids 1 and 2: the main chunk id is 2.
\<close>

theorem mainChunkId_counterexample:
  "map_sum (\<lambda>e. e) mainChunkId
     (classify (demoEnv False False)
        [demoFile ''1'' ''vendor'' ''vendor-es2015.js'',
         demoFile ''2'' ''vendor'' ''vendor-b-es2015.js'']
        [(''dist/vendor-es2015.js'', ''V''), (''dist/vendor-b-es2015.js'', ''W'')])
   = Inr (Some ''2'')"
  by code_simp

text \<open>
  C7, amended: when the classification completes and no chunk id is the empty string,
  the main chunk id is the chunk id of the last deduplicated script named \<^verbatim>\<open>vendor\<close>;
  only if no script is named \<^verbatim>\<open>vendor\<close> it is the chunk id of the first script named
  \<^verbatim>\<open>main\<close>, and it is undefined if there is neither.
\<close>

theorem mainChunkId_classified:
  assumes "classify env emittedFiles d = Inr st"
    and "\<forall>f \<in> set emittedFiles. ef_id f \<noteq> Some []"
  shows "mainChunkId st =
     (case filter (\<lambda>f. ef_name f = Some ''vendor'') (scriptsOf env emittedFiles) of
        v # vs \<Rightarrow> ef_id (last (v # vs))
      | [] \<Rightarrow>
          (case filter (\<lambda>f. ef_name f = Some ''main'') (scriptsOf env emittedFiles) of
             [] \<Rightarrow> None
           | m # ms \<Rightarrow> ef_id m))"
proof -
  from assms(1) have run: "classifyAll env emittedFiles (initialState d) = Inr st"
    by (simp add: classify_def)
  have "mainChunkId (initialState d) = None" "seen (initialState d) = {}"
    by (simp_all add: initialState_def)
  with classifyAll_main[OF run assms(2)]
  have "mainChunkId st = mainChunkFrom None (scriptsOf env emittedFiles)"
    by (simp add: scriptsOf_def)
  then show ?thesis by (simp add: mainChunkFrom_def truthy_def)
qed

theorem mainChunkId_classified_witness:
  "classify (demoEnv False False) vendorDemoFiles vendorDemoDisk
     = Inr (projr (classify (demoEnv False False) vendorDemoFiles vendorDemoDisk))
   \<and> list_all (\<lambda>f. ef_id f \<noteq> Some []) vendorDemoFiles
   \<and> mainChunkId (projr (classify (demoEnv False False) vendorDemoFiles vendorDemoDisk))
       = Some ''3''"
proof -
  let ?r = "classify (demoEnv False False) vendorDemoFiles vendorDemoDisk"
  have "\<not> isl ?r" by code_simp
  then have run: "?r = Inr (projr ?r)" by simp
  have ids: "list_all (\<lambda>f. ef_id f \<noteq> Some []) vendorDemoFiles" by code_simp
  then have ids': "\<forall>f \<in> set vendorDemoFiles. ef_id f \<noteq> Some []"
    by (simp add: list_all_iff)
  have "(case filter (\<lambda>f. ef_name f = Some ''vendor'')
                (scriptsOf (demoEnv False False) vendorDemoFiles) of
           v # vs \<Rightarrow> ef_id (last (v # vs))
         | [] \<Rightarrow>
             (case filter (\<lambda>f. ef_name f = Some ''main'')
                     (scriptsOf (demoEnv False False) vendorDemoFiles) of
                [] \<Rightarrow> None
              | m # ms \<Rightarrow> ef_id m)) = Some ''3''"
    by code_simp
  with mainChunkId_classified[OF run ids'] run ids show ?thesis by simp
qed

section \<open>The order of the process results\<close>

lemma splitActions_shape:
  "splitActions wr acts (pa0, pr0) = (pa, pr) \<Longrightarrow>
   pa = pa0 @ map (\<lambda>a. a\<lparr>replacements := wr\<rparr>)
               (filter (\<lambda>a. \<not> (truthy (integrityAlgorithm a) \<and> runtime a)) acts)
   \<and> pr = (case filter (\<lambda>a. truthy (integrityAlgorithm a) \<and> runtime a) acts of
             [] \<Rightarrow> pr0
           | r # rs \<Rightarrow> Some (last (r # rs)))"
proof (induction acts arbitrary: pa0 pr0)
  case Nil
  then show ?case by simp
next
  case (Cons a acts)
  show ?case
  proof (cases "truthy (integrityAlgorithm a) \<and> runtime a")
    case True
    with Cons.prems have "splitActions wr acts (pa0, Some a) = (pa, pr)" by simp
    from Cons.IH[OF this] True show ?thesis by (auto split: list.splits)
  next
    case False
    with Cons.prems have "splitActions wr acts (pa0 @ [a\<lparr>replacements := wr\<rparr>], pr0) = (pa, pr)"
      by auto
    from Cons.IH[OF this] False show ?thesis by (auto split: list.splits)
  qed
qed

lemma classify_integrity:
  assumes "classify env emittedFiles d = Inr st"
  shows "\<forall>a \<in> set (actions st). integrityAlgorithm a = integrityAlgorithm (actionOptions env)"
proof -
  from assms have run: "classifyAll env emittedFiles (initialState d) = Inr st"
    by (simp add: classify_def)
  from classifyAll_actions[OF run] show ?thesis by (auto simp: initialState_def)
qed

text \<open>
  C1, as stated: in every build with a runtime chunk, whatever the options, the result
  of the runtime chunk is the last of the process results. It fails without subresource
  integrity: the runtime action is submitted with the others, and an executor that
  completes the actions in the order of submission yields the result of the runtime
  chunk (chunk id 0) first.
\<close>

theorem runtime_result_last_counterexample:
  "map_sum (\<lambda>e. e) (map runtime)
     (map_sum (\<lambda>e. e) actions (classify (demoEnv False False) runtimeDemoFiles duplicateDemoDisk))
     = Inr [True, False]
   \<and> map_sum (\<lambda>e. e) (map name)
     (map_sum (\<lambda>e. e) actions (classify (demoEnv False False) runtimeDemoFiles duplicateDemoDisk))
     = Inr [Some ''0'', Some ''1'']
   \<and> map_sum (\<lambda>e. e) (map r_name)
       (classifyAndProcess (demoExecutor ([], None) None) (demoEnv False False)
          runtimeDemoFiles duplicateDemoDisk)
     = Inr [Some ''0'', Some ''1'']"
  by code_simp

text \<open>
  C1, amended: in a build with subresource integrity whose emitted scripts include a
  runtime chunk, the runtime action (the last one, if there are several) is withheld from
  the batch; when the processing completes, the process results are the results of the
  batch, none of which belongs to a runtime action, followed by the result of the
  runtime action, which was processed after the batch with all its results as
  \<^verbatim>\<open>runtimeData\<close>.
\<close>

theorem runtime_result_last:
  assumes cl: "classify env emittedFiles d = Inr st"
    and sri: "integrityAlgorithm (actionOptions env) = Some ''sha384''"
    and rt: "\<exists>a \<in> set (actions st). runtime a"
    and sp: "splitActions (workerReplacements st) (actions st) ([], None)
               = (processActions, processRuntimeAction)"
    and ps: "processStage ex env processActions processRuntimeAction (disk st)
               = (Inr processResults, d', ev)"
  shows "\<exists>ra r.
           processRuntimeAction = Some ra \<and> ra = last (filter runtime (actions st))
           \<and> (\<forall>a \<in> set processActions. \<not> runtime a)
           \<and> processResults = fst (fst (processAll ex processActions (disk st))) @ [r]
           \<and> fst (processBundle ex
                    (ra\<lparr>runtimeData := Some (fst (fst (processAll ex processActions (disk st)))),
                       supportedBrowsers := Some (browsers env)\<rparr>)
                    (snd (processAll ex processActions (disk st)))) = Inr r
           \<and> ev = [SpinnerStart DlSpinner, ProcessAllCalled processActions,
                   ProcessCalled
                     (ra\<lparr>runtimeData := Some (fst (fst (processAll ex processActions (disk st)))),
                        supportedBrowsers := Some (browsers env)\<rparr>),
                   SpinnerSucceed DlSpinner ''ES5 bundle generation complete.'']"
proof -
  have all: "\<forall>a \<in> set (actions st). truthy (integrityAlgorithm a)"
    using classify_integrity[OF cl] sri by (simp add: truthy_def)
  then have f1: "filter (\<lambda>a. truthy (integrityAlgorithm a) \<and> runtime a) (actions st)
                  = filter runtime (actions st)"
    and f2: "filter (\<lambda>a. \<not> (truthy (integrityAlgorithm a) \<and> runtime a)) (actions st)
                  = filter (\<lambda>a. \<not> runtime a) (actions st)"
    by (auto intro: filter_cong)
  from rt have ne: "filter runtime (actions st) \<noteq> []"
    by (auto simp: filter_empty_conv)
  from splitActions_shape[OF sp] f1 f2 ne
  have pa: "processActions = map (\<lambda>a. a\<lparr>replacements := workerReplacements st\<rparr>)
                               (filter (\<lambda>a. \<not> runtime a) (actions st))"
    and pr: "processRuntimeAction = Some (last (filter runtime (actions st)))"
    by (auto split: list.splits)
  from pa have nort: "\<forall>a \<in> set processActions. \<not> runtime a" by auto
  obtain rs th d1 where pall: "processAll ex processActions (disk st) = ((rs, th), d1)"
    by (metis prod.exhaust)
  let ?ro = "(last (filter runtime (actions st)))\<lparr>runtimeData := Some rs,
                supportedBrowsers := Some (browsers env)\<rparr>"
  obtain res d2 where pb: "processBundle ex ?ro d1 = (res, d2)" by (metis prod.exhaust)
  from ps pr pall pb obtain r where
    "res = Inr r" "processResults = rs @ [r]"
    "ev = [SpinnerStart DlSpinner, ProcessAllCalled processActions, ProcessCalled ?ro,
           SpinnerSucceed DlSpinner ''ES5 bundle generation complete.'']"
    by (auto simp: processStage_def Let_def split: option.splits sum.splits)
  with pr nort pall pb show ?thesis by simp
qed

theorem runtime_result_last_witness:
  "classify (demoEnv True False) runtimeDemoFiles duplicateDemoDisk = Inr sriDemoState
   \<and> map runtime (actions sriDemoState) = [True, False]
   \<and> map_sum (\<lambda>e. e) (map r_name)
       (classifyAndProcess (demoExecutor ([], None) None) (demoEnv True False)
          runtimeDemoFiles duplicateDemoDisk)
     = Inr [Some ''1'', Some ''0'']
   \<and> (\<exists>ra r. snd (splitActions (workerReplacements sriDemoState) (actions sriDemoState) ([], None))
                = Some ra
        \<and> projr (fst (processStage (demoExecutor ([], None) None) (demoEnv True False)
                   (fst (splitActions (workerReplacements sriDemoState) (actions sriDemoState)
                          ([], None)))
                   (Some ra) (disk sriDemoState)))
          = fst (fst (processAll (demoExecutor ([], None) None)
                   (fst (splitActions (workerReplacements sriDemoState) (actions sriDemoState)
                          ([], None)))
                   (disk sriDemoState))) @ [r])"
proof -
  let ?env = "demoEnv True False"
  let ?ex = "demoExecutor ([], None) None"
  let ?r = "classify ?env runtimeDemoFiles duplicateDemoDisk"
  let ?sp = "splitActions (workerReplacements sriDemoState) (actions sriDemoState) ([], None)"
  let ?ps = "processStage ?ex ?env (fst ?sp) (snd ?sp) (disk sriDemoState)"
  have "\<not> isl ?r" by code_simp
  then have cl: "?r = Inr sriDemoState" by (simp add: sriDemoState_def)
  have sri: "integrityAlgorithm (actionOptions ?env) = Some ''sha384''" by code_simp
  have rts: "map runtime (actions sriDemoState) = [True, False]" by code_simp
  have "list_ex runtime (actions sriDemoState)" by code_simp
  then have rt: "\<exists>a \<in> set (actions sriDemoState). runtime a"
    by (simp add: list_ex_iff)
  have sp: "?sp = (fst ?sp, snd ?sp)" by simp
  have "\<not> isl (fst ?ps)" by code_simp
  then have ps: "?ps = (Inr (projr (fst ?ps)), fst (snd ?ps), snd (snd ?ps))" by simp
  have ev: "map_sum (\<lambda>e. e) (map r_name) (classifyAndProcess ?ex ?env runtimeDemoFiles duplicateDemoDisk)
     = Inr [Some ''1'', Some ''0'']" by code_simp
  from runtime_result_last[OF cl sri rt sp ps] obtain ra r where
    "snd ?sp = Some ra"
    "projr (fst ?ps) = fst (fst (processAll ?ex (fst ?sp) (disk sriDemoState))) @ [r]"
    by blast
  then have "\<exists>ra r. snd ?sp = Some ra
        \<and> projr (fst (processStage ?ex ?env (fst ?sp) (Some ra) (disk sriDemoState)))
          = fst (fst (processAll ?ex (fst ?sp) (disk sriDemoState))) @ [r]"
    by auto
  with cl rts ev show ?thesis by blast
qed

section \<open>The inline action that sets the locale\<close>

lemma addVariant_setLocale:
  "addVariant env mainId d r v isEs5 acc = Inr acc' \<Longrightarrow>
   map setLocale (fst acc')
     = map setLocale (fst acc) @ (case v of None \<Rightarrow> [] | Some b \<Rightarrow> [r_name r = mainId])"
  by (auto simp: addVariant_def split: option.splits sum.splits)

lemma inlineActionsOf_setLocale:
  "inlineActionsOf env mainId d rs acc = Inr acc' \<Longrightarrow>
   map setLocale (fst acc')
     = map setLocale (fst acc)
       @ concat (map (\<lambda>r. replicate (variants r) (r_name r = mainId)) rs)"
proof (induction rs arbitrary: acc)
  case Nil
  then show ?case by simp
next
  case (Cons r rs)
  from Cons.prems obtain acc1 acc2 where
    a1: "addVariant env mainId d r (original r) False acc = Inr acc1"
    and a2: "addVariant env mainId d r (downlevel r) True acc1 = Inr acc2"
    and rest: "inlineActionsOf env mainId d rs acc2 = Inr acc'"
    by (auto split: sum.splits)
  from addVariant_setLocale[OF a1] addVariant_setLocale[OF a2]
  have "map setLocale (fst acc2)
          = map setLocale (fst acc) @ replicate (variants r) (r_name r = mainId)"
    by (auto simp: variants_def split: option.splits)
  with Cons.IH[OF rest] show ?case by simp
qed

lemma count_true_concat:
  "length (filter (\<lambda>b. b) (concat (map (\<lambda>r. replicate (n r) (P r)) rs)))
     = sum_list (map n (filter P rs))"
  by (induction rs) auto

text \<open>
  C2, as stated: exactly one inline action has \<^verbatim>\<open>setLocale\<close> set. It fails for the
  result of the main chunk with an original and a downlevelled file: both of its inline
  actions set the locale.
\<close>

theorem setLocale_counterexample:
  "map_sum (\<lambda>e. e) (\<lambda>acc. map setLocale (fst acc))
     (inlineActionsOf (demoEnv False True) (Some ''1'')
        [(''dist/main-es2015.js'', ''M''), (''dist/main-es5.js'', ''M'')]
        [\<lparr>r_name = Some ''1'', r_integrity = None,
          original = Some \<lparr>f_filename = ''dist/main-es2015.js'', f_size = 1, f_map = None\<rparr>,
          downlevel = Some \<lparr>f_filename = ''dist/main-es5.js'', f_size = 1, f_map = None\<rparr>\<rparr>]
        ([], []))
   = Inr [True, True]"
  by code_simp



text \<open>
  C2, amended: an inline action has \<^verbatim>\<open>setLocale\<close> set exactly when it is derived from a
  process result whose name is strictly equal to the main chunk id. Every such result
  contributes one action for each of its variants (original, downlevel) that is present,
  so the number of actions that set the locale is the number of present variants of the
  results whose name equals the main chunk id: two for a main chunk with both variants,
  none when no result has that name. An undefined main chunk id (no script is named
  \<^verbatim>\<open>vendor\<close> or \<^verbatim>\<open>main\<close>) equals the undefined name of the result of a file without
  an id, as a worker asset is: the actions of such a result set the locale then.
\<close>

theorem setLocale_of_main_chunk:
  assumes "inlineActionsOf env mainId d processResults ([], []) = Inr (inlineActions, processedFiles)"
  shows "map setLocale inlineActions
           = concat (map (\<lambda>r. replicate (variants r) (r_name r = mainId)) processResults)
       \<and> length (filter setLocale inlineActions)
           = sum_list (map variants (filter (\<lambda>r. r_name r = mainId) processResults))"
proof -
  from inlineActionsOf_setLocale[OF assms]
  have m: "map setLocale inlineActions
           = concat (map (\<lambda>r. replicate (variants r) (r_name r = mainId)) processResults)"
    by simp
  have "length (filter setLocale inlineActions) = length (filter (\<lambda>b. b) (map setLocale inlineActions))"
    by (simp add: filter_map comp_def)
  also have "\<dots> = sum_list (map variants (filter (\<lambda>r. r_name r = mainId) processResults))"
    unfolding m by (rule count_true_concat)
  finally show ?thesis using m by simp
qed


theorem setLocale_of_main_chunk_witness:
  "map_sum (\<lambda>e. e) (\<lambda>acc. map setLocale (fst acc))
     (inlineActionsOf (demoEnv False True) (Some ''1'') setLocaleDemoDisk setLocaleDemoResults
        ([], []))
     = Inr [False, True]
   \<and> length (filter setLocale
        (fst (projr (inlineActionsOf (demoEnv False True) (Some ''1'') setLocaleDemoDisk
                       setLocaleDemoResults ([], []))))) = 1
   \<and> map setLocale
        (fst (projr (inlineActionsOf (demoEnv False True) None workerDemoDisk
                       workerDemoResults ([], []))))
       = [True, False]
   \<and> map setLocale
        (inlineActionsCalled
           (snd (differentialLoading (demoExecutor ([], None) None) (demoEnv False True)
                   (\<lambda>rs. []) emptyStats partitionDemoFiles [(''dist/0.worker.js'', ''W'')])))
       = [True, True]"
proof -
  let ?r = "inlineActionsOf (demoEnv False True) (Some ''1'') setLocaleDemoDisk
              setLocaleDemoResults ([], [])"
  let ?w = "inlineActionsOf (demoEnv False True) None workerDemoDisk workerDemoResults ([], [])"
  have "\<not> isl ?r" by code_simp
  then have run: "?r = Inr (fst (projr ?r), snd (projr ?r))" by simp
  have "\<not> isl ?w" by code_simp
  then have wrun: "?w = Inr (fst (projr ?w), snd (projr ?w))" by simp
  have count: "sum_list (map variants
                  (filter (\<lambda>r. r_name r = Some ''1'') setLocaleDemoResults)) = 1"
    by code_simp
  have ev: "map_sum (\<lambda>e. e) (\<lambda>acc. map setLocale (fst acc)) ?r = Inr [False, True]"
    by code_simp
  have wev: "concat (map (\<lambda>r. replicate (variants r) (r_name r = None)) workerDemoResults)
               = [True, False]"
    by code_simp
  have pipeline: "map setLocale
        (inlineActionsCalled
           (snd (differentialLoading (demoExecutor ([], None) None) (demoEnv False True)
                   (\<lambda>rs. []) emptyStats partitionDemoFiles [(''dist/0.worker.js'', ''W'')])))
       = [True, True]"
    by code_simp
  from setLocale_of_main_chunk[OF run] count
  have one: "length (filter setLocale (fst (projr ?r))) = 1" by simp
  from setLocale_of_main_chunk[OF wrun] wev
  have undef: "map setLocale (fst (projr ?w)) = [True, False]" by simp
  from ev one undef pipeline show ?thesis by blast
qed

section \<open>The events of the guarded block\<close>

lemma drawnResults_append: "drawnResults (xs @ ys) = drawnResults xs @ drawnResults ys"
  by (induction xs rule: drawnResults.induct) simp_all

lemma stops_append: "stops (xs @ ys) = stops xs + stops ys"
  by (simp add: stops_def)

lemma stops_Cons: "stops (e # evs) = (if e = ExecutorStop then 1 else 0) + stops evs"
  by (simp add: stops_def)

lemma reportDiagnostics_facts:
  "fst (reportDiagnostics ds h) = (h \<or> (\<exists>dg \<in> set ds. d_type dg = DiagError))
   \<and> drawnResults (snd (reportDiagnostics ds h)) = []
   \<and> stops (snd (reportDiagnostics ds h)) = 0"
  by (induction ds arbitrary: h) (auto simp: stops_def case_prod_beta)

lemma drawInlineResults_facts:
  "fst (drawInlineResults v rs h)
     = (h \<or> (\<exists>r \<in> set rs. \<exists>dg \<in> set (diagnostics r). d_type dg = DiagError))
   \<and> drawnResults (snd (drawInlineResults v rs h)) = rs
   \<and> stops (snd (drawInlineResults v rs h)) = 0"
proof (induction rs arbitrary: h)
  case Nil
  then show ?case by (simp add: stops_def)
next
  case (Cons r rs)
  obtain h1 ev1 where rd: "reportDiagnostics (diagnostics r) h = (h1, ev1)" by (metis prod.exhaust)
  obtain h2 ev2 where dr: "drawInlineResults v rs h1 = (h2, ev2)" by (metis prod.exhaust)
  from reportDiagnostics_facts[of "diagnostics r" h] rd
  have r1: "h1 = (h \<or> (\<exists>dg \<in> set (diagnostics r). d_type dg = DiagError))"
    "drawnResults ev1 = []" "stops ev1 = 0" by simp_all
  from Cons.IH[of h1] dr
  have r2: "h2 = (h1 \<or> (\<exists>r \<in> set rs. \<exists>dg \<in> set (diagnostics r). d_type dg = DiagError))"
    "drawnResults ev2 = rs" "stops ev2 = 0" by simp_all
  have "drawInlineResults v (r # rs) h
          = (h2, [InlineDrawn r]
                 @ (if v then [LoggerInfoLocalized (ir_file r) (ir_count r)] else [])
                 @ ev1 @ ev2)"
    using rd dr by simp
  moreover have "drawnResults ([InlineDrawn r]
                 @ (if v then [LoggerInfoLocalized (ir_file r) (ir_count r)] else [])
                 @ ev1 @ ev2) = r # rs"
    using r1 r2 by (simp add: drawnResults_append)
  moreover have "stops ([InlineDrawn r]
                 @ (if v then [LoggerInfoLocalized (ir_file r) (ir_count r)] else [])
                 @ ev1 @ ev2) = 0"
    using r1 r2 by (simp add: stops_append) (simp add: stops_def)
  ultimately show ?case using r1 r2 by auto
qed

lemma inlineStage_events:
  "\<exists>evs. snd (inlineStage ex env ias pf)
           = InlineAllCalled ias # snd (drawInlineResults (verbose env) (fst (inlineAll ex ias)) False)
             @ evs
     \<and> drawnResults evs = [] \<and> stops evs = 0
     \<and> (snd (inlineAll ex ias) = None \<longrightarrow>
          (\<exists>fin. evs = [CopyAssetsCalled (map (pathRelative env (outputPath env)) pf) (outputPaths env), fin]))"
  by (auto simp: inlineStage_def Let_def stops_def failedText_def split: prod.splits option.splits)


lemma remdups_drop_earlier:
  "x \<in> set bs \<Longrightarrow> remdups (as @ x # bs) = remdups (as @ bs)"
  by (induction as) auto

lemma fold_setAdd:
  "distinct pf \<Longrightarrow> fold (\<lambda>x a. setAdd a x) xs pf = rev (remdups (rev (pf @ xs)))"
proof (induction xs arbitrary: pf)
  case Nil
  then show ?case by (simp add: distinct_remdups_id)
next
  case (Cons x xs)
  have d: "distinct (setAdd pf x)" using Cons.prems by (simp add: setAdd_def)
  have "remdups (rev xs @ rev (setAdd pf x)) = remdups (rev xs @ x # rev pf)"
    using remdups_drop_earlier[of x "rev pf" "rev xs"] by (simp add: setAdd_def)
  with Cons.IH[OF d] show ?case by simp
qed

lemma addVariant_files:
  "addVariant env mainId d r v isEs5 acc = Inr acc' \<Longrightarrow>
   snd acc' = fold (\<lambda>x a. setAdd a x) (bundleFiles v) (snd acc)"
  by (auto simp: addVariant_def bundleFiles_def split: option.splits sum.splits)

lemma inlineActionsOf_files:
  "inlineActionsOf env mainId d rs acc = Inr acc' \<Longrightarrow>
   snd acc' = fold (\<lambda>x a. setAdd a x) (concat (map resultFiles rs)) (snd acc)"
proof (induction rs arbitrary: acc)
  case Nil
  then show ?case by simp
next
  case (Cons r rs)
  from Cons.prems obtain acc1 acc2 where
    a1: "addVariant env mainId d r (original r) False acc = Inr acc1"
    and a2: "addVariant env mainId d r (downlevel r) True acc1 = Inr acc2"
    and rest: "inlineActionsOf env mainId d rs acc2 = Inr acc'"
    by (auto split: sum.splits)
  from addVariant_files[OF a1] addVariant_files[OF a2]
  have "snd acc2 = fold (\<lambda>x a. setAdd a x) (resultFiles r) (snd acc)"
    by (simp add: resultFiles_def)
  with Cons.IH[OF rest] show ?case by simp
qed

lemma copyCalls_append: "copyCalls (xs @ ys) = copyCalls xs @ copyCalls ys"
  by (induction xs rule: copyCalls.induct) simp_all

lemma reportDiagnostics_copies: "copyCalls (snd (reportDiagnostics ds h)) = []"
  by (induction ds arbitrary: h) (auto simp: case_prod_beta)

lemma drawInlineResults_copies: "copyCalls (snd (drawInlineResults v rs h)) = []"
  by (induction rs arbitrary: h)
     (auto simp: case_prod_beta copyCalls_append reportDiagnostics_copies)

text \<open>
  C4, as stated: when a drawn inline result carries an error diagnostic, the build returns
  an unsuccessful output only after every result was drawn and the copy of the files that
  were not processed has run. It fails when the sequence throws after it has yielded the
  result with the error diagnostic: the build returns an unsuccessful output from the
  \<^verbatim>\<open>catch\<close> clause, and the copy was never called.
\<close>

theorem error_diagnostic_throw_counterexample:
  "fst (executorStage (demoExecutor ([errorDemoResult], Some (StringValue ''worker crashed'')) None)
          (demoEnv False True) (Some ''1'') [mainDemoAction] None
          [(''dist/main-es2015.js'', ''M'')])
     = Return \<lparr>success = False, error = Some ''worker crashed''\<rparr>
   \<and> drawnResults
        (snd (executorStage
                (demoExecutor ([errorDemoResult], Some (StringValue ''worker crashed'')) None)
                (demoEnv False True) (Some ''1'') [mainDemoAction] None
                [(''dist/main-es2015.js'', ''M'')]))
       = [errorDemoResult]
   \<and> copyCalls
        (snd (executorStage
                (demoExecutor ([errorDemoResult], Some (StringValue ''worker crashed'')) None)
                (demoEnv False True) (Some ''1'') [mainDemoAction] None
                [(''dist/main-es2015.js'', ''M'')]))
       = []"
  by code_simp

text \<open>
  C4, amended: when a drawn inline result carries an error diagnostic, the stage returns an
  unsuccessful output, and the diagnostic does not end the loop: every result the
  sequence yields is drawn. When the sequence ends without throwing, the copy is called
  once, after the last result was drawn and right before the failure is reported and
  returned; it ignores exactly the processed files, which are the files and source maps
  of the process results, each once, in the order they were met; the output carries no
  error message unless the copy throws. When the sequence throws, the stage returns the
  unsuccessful output with the message of what was thrown, and the copy is not called.
\<close>

theorem error_diagnostic_outcome:
  assumes acts: "inlineActionsOf env mainId d processResults ([], []) = Inr (ias, pf)"
    and diag: "\<exists>r \<in> set (fst (inlineAll ex ias)). \<exists>dg \<in> set (diagnostics r). d_type dg = DiagError"
  shows "(\<exists>out. fst (inlineStage ex env ias pf) = Return out \<and> \<not> success out)
    \<and> drawnResults (snd (inlineStage ex env ias pf)) = fst (inlineAll ex ias)
    \<and> pf = rev (remdups (rev (concat (map resultFiles processResults))))
    \<and> (snd (inlineAll ex ias) = None \<longrightarrow>
         (\<exists>evs. snd (inlineStage ex env ias pf)
                  = evs @ [CopyAssetsCalled (map (pathRelative env (outputPath env)) pf)
                             (outputPaths env),
                           SpinnerFail LocaleSpinner failedText]
               \<and> drawnResults evs = fst (inlineAll ex ias) \<and> copyCalls evs = [])
         \<and> fst (inlineStage ex env ias pf)
             = Return \<lparr>success = False,
                       error = (case copyAssets ex (map (pathRelative env (outputPath env)) pf)
                                       (outputPaths env) of
                                  None \<Rightarrow> None
                                | Some err \<Rightarrow> mapErrorToMessage err)\<rparr>)
    \<and> (\<forall>err. snd (inlineAll ex ias) = Some err \<longrightarrow>
         fst (inlineStage ex env ias pf)
           = Return \<lparr>success = False, error = mapErrorToMessage err\<rparr>
         \<and> copyCalls (snd (inlineStage ex env ias pf)) = [])"
proof -
  obtain results thrown where ia: "inlineAll ex ias = (results, thrown)" by (metis prod.exhaust)
  obtain h ev where dr: "drawInlineResults (verbose env) results False = (h, ev)"
    by (metis prod.exhaust)
  from drawInlineResults_facts[of "verbose env" results False] dr diag ia
  have h: "h" and drawn: "drawnResults ev = results" by simp_all
  from drawInlineResults_copies[of "verbose env" results False] dr
  have nocopy: "copyCalls ev = []" by simp
  from inlineActionsOf_files[OF acts] fold_setAdd[of "[]"]
  have files: "pf = rev (remdups (rev (concat (map resultFiles processResults))))" by simp
  let ?copy = "CopyAssetsCalled (map (pathRelative env (outputPath env)) pf) (outputPaths env)"
  let ?fail = "SpinnerFail LocaleSpinner failedText"
  show ?thesis
  proof (cases thrown)
    case (Some err)
    with ia dr have "inlineStage ex env ias pf
        = (Return \<lparr>success = False, error = mapErrorToMessage err\<rparr>,
           [InlineAllCalled ias] @ ev @ [?fail])"
      by (simp add: inlineStage_def)
    with ia drawn nocopy files Some show ?thesis
      by (simp add: drawnResults_append copyCalls_append)
  next
    case None
    have pre: "drawnResults ([InlineAllCalled ias] @ ev) = results"
      "copyCalls ([InlineAllCalled ias] @ ev) = []"
      using drawn nocopy by simp_all
    show ?thesis
    proof (cases "copyAssets ex (map (pathRelative env (outputPath env)) pf) (outputPaths env)")
      case cp: None
      with None ia dr h have "inlineStage ex env ias pf
          = (Return \<lparr>success = False, error = None\<rparr>,
             ([InlineAllCalled ias] @ ev) @ [?copy, ?fail])"
        by (simp add: inlineStage_def)
      with pre show ?thesis using ia None cp files by (auto simp: drawnResults_append)
    next
      case cp: (Some err)
      with None ia dr h have "inlineStage ex env ias pf
          = (Return \<lparr>success = False, error = mapErrorToMessage err\<rparr>,
             ([InlineAllCalled ias] @ ev) @ [?copy, ?fail])"
        by (simp add: inlineStage_def)
      with pre show ?thesis using ia None cp files by (auto simp: drawnResults_append)
    qed
  qed
qed

theorem error_diagnostic_outcome_witness:
  "inlineActionsOf (demoEnv False True) (Some ''1'') mainDemoDisk [demoResult mainDemoAction] ([], [])
     = Inr (fst (projr (inlineActionsOf (demoEnv False True) (Some ''1'') mainDemoDisk
                          [demoResult mainDemoAction] ([], []))),
            [''dist/main-es2015.js'', ''dist/main-es5.js''])
   \<and> list_ex (\<lambda>r. list_ex (\<lambda>dg. d_type dg = DiagError) (diagnostics r)) localeDemoResults
   \<and> fst (inlineStage (demoExecutor (localeDemoResults, None) None) (demoEnv False True)
            (fst (projr (inlineActionsOf (demoEnv False True) (Some ''1'') mainDemoDisk
                          [demoResult mainDemoAction] ([], []))))
            [''dist/main-es2015.js'', ''dist/main-es5.js''])
       = Return \<lparr>success = False, error = None\<rparr>
   \<and> drawnResults
        (snd (inlineStage (demoExecutor (localeDemoResults, None) None) (demoEnv False True)
            (fst (projr (inlineActionsOf (demoEnv False True) (Some ''1'') mainDemoDisk
                          [demoResult mainDemoAction] ([], []))))
            [''dist/main-es2015.js'', ''dist/main-es5.js'']))
       = localeDemoResults
   \<and> copyCalls
        (snd (inlineStage (demoExecutor (localeDemoResults, None) None) (demoEnv False True)
            (fst (projr (inlineActionsOf (demoEnv False True) (Some ''1'') mainDemoDisk
                          [demoResult mainDemoAction] ([], []))))
            [''dist/main-es2015.js'', ''dist/main-es5.js'']))
       = [([''main-es2015.js'', ''main-es5.js''], [''dist/fr'', ''dist/de''])]"
proof -
  let ?env = "demoEnv False True"
  let ?ex = "demoExecutor (localeDemoResults, None) None"
  let ?r = "inlineActionsOf ?env (Some ''1'') mainDemoDisk [demoResult mainDemoAction] ([], [])"
  let ?pf = "[''dist/main-es2015.js'', ''dist/main-es5.js'']"
  define ias where "ias = fst (projr ?r)"
  have "\<not> isl ?r" by code_simp
  moreover have "snd (projr ?r) = ?pf" by code_simp
  ultimately have acts: "?r = Inr (ias, ?pf)"
    unfolding ias_def by (metis prod.collapse sum.collapse(2))
  have ia: "inlineAll ?ex ias = (localeDemoResults, None)" by (simp add: demoExecutor_def)
  have cp: "copyAssets ?ex (map (pathRelative ?env (outputPath ?env)) ?pf) (outputPaths ?env) = None"
    by (simp add: demoExecutor_def)
  have le: "list_ex (\<lambda>r. list_ex (\<lambda>dg. d_type dg = DiagError) (diagnostics r)) localeDemoResults"
    by code_simp
  then have diag: "\<exists>r \<in> set (fst (inlineAll ?ex ias)). \<exists>dg \<in> set (diagnostics r). d_type dg = DiagError"
    using ia by (simp add: list_ex_iff)
  have rel: "map (pathRelative ?env (outputPath ?env)) ?pf = [''main-es2015.js'', ''main-es5.js'']"
    "outputPaths ?env = [''dist/fr'', ''dist/de'']"
    by (simp_all add: demoEnv_def)
  note T = error_diagnostic_outcome[OF acts diag]
  have none: "snd (inlineAll ?ex ias) = None" using ia by simp
  note F = T[THEN conjunct2, THEN conjunct2, THEN conjunct2, THEN conjunct1, THEN mp, OF none]
  from T[THEN conjunct2, THEN conjunct1] ia
  have drawn: "drawnResults (snd (inlineStage ?ex ?env ias ?pf)) = localeDemoResults"
    by simp
  from F[THEN conjunct2] cp
  have ret: "fst (inlineStage ?ex ?env ias ?pf) = Return \<lparr>success = False, error = None\<rparr>"
    by simp
  from F[THEN conjunct1] obtain evs where
    "snd (inlineStage ?ex ?env ias ?pf)
       = evs @ [CopyAssetsCalled (map (pathRelative ?env (outputPath ?env)) ?pf) (outputPaths ?env),
                SpinnerFail LocaleSpinner failedText]"
    "copyCalls evs = []"
    by blast
  then have copies: "copyCalls (snd (inlineStage ?ex ?env ias ?pf))
      = [([''main-es2015.js'', ''main-es5.js''], [''dist/fr'', ''dist/de''])]"
    using rel by (simp add: copyCalls_append)
  from acts le ret drawn copies show ?thesis unfolding ias_def by blast
qed


section \<open>The release of the executor\<close>

lemma processStage_stops: "stops (snd (snd (processStage ex env pa pr d))) = 0"
  by (auto simp: processStage_def Let_def stops_def split: prod.splits option.splits sum.splits)

lemma inlineStage_stops: "stops (snd (inlineStage ex env ias pf)) = 0"
proof -
  from inlineStage_events[of ex env ias pf] obtain evs where
    "snd (inlineStage ex env ias pf)
       = InlineAllCalled ias
         # snd (drawInlineResults (verbose env) (fst (inlineAll ex ias)) False) @ evs"
    "stops evs = 0"
    by blast
  moreover have "stops (InlineAllCalled ias # xs) = stops xs" for xs
    by (simp add: stops_def)
  ultimately show ?thesis
    using drawInlineResults_facts[of "verbose env" "fst (inlineAll ex ias)" False]
    by (simp add: stops_append)
qed

lemma tryBody_stops: "stops (snd (tryBody ex env mainId pa pr d)) = 0"
proof -
  obtain res d1 ev where ps: "processStage ex env pa pr d = (res, d1, ev)"
    by (metis prod.exhaust)
  from processStage_stops[of ex env pa pr d] ps have ev0: "stops ev = 0" by simp
  have one: "stops [SpinnerStart LocaleSpinner] = 0" by (simp add: stops_def)
  show ?thesis
  proof (cases res)
    case (Inl e)
    with ps ev0 show ?thesis by (simp add: tryBody_def)
  next
    case (Inr rs)
    show ?thesis
    proof (cases "shouldInline env")
      case False
      with Inr ps ev0 show ?thesis by (simp add: tryBody_def)
    next
      case True
      show ?thesis
      proof (cases "inlineActionsOf env mainId d1 rs ([], [])")
        case (Inl e)
        with True Inr ps ev0 one show ?thesis by (simp add: tryBody_def stops_append)
      next
        case ia: (Inr acc)
        obtain ias pf where acc: "acc = (ias, pf)" by (metis prod.exhaust)
        obtain c ev' where st: "inlineStage ex env ias pf = (c, ev')" by (metis prod.exhaust)
        from inlineStage_stops[of ex env ias pf] st have "stops ev' = 0" by simp
        with True Inr ps ev0 one ia acc st show ?thesis
          by (cases c) (simp_all add: tryBody_def stops_append stops_Cons)
      qed
    qed
  qed
qed

text \<open>
  C3: however the guarded block ends (it falls through, returns because of an error
  diagnostic, returns because the inlining threw, or throws), the stage from the creation
  of the executor to the end of the \<^verbatim>\<open>finally\<close> clause stops the executor exactly once,
  as its last action, and ends as the block ended.
\<close>

theorem executor_stopped_once:
  "stops (snd (executorStage ex env mainId pa pr d)) = 1
   \<and> last (snd (executorStage ex env mainId pa pr d)) = ExecutorStop
   \<and> fst (executorStage ex env mainId pa pr d) = fst (tryBody ex env mainId pa pr d)"
  using tryBody_stops[of ex env mainId pa pr d]
  by (simp add: executorStage_def case_prod_beta stops_append) (simp add: stops_def)


theorem executor_stopped_once_witness:
  "stops (snd (executorStage (demoExecutor ([], None) None) (demoEnv False True) (Some ''1'')
                 [mainDemoAction] None [(''dist/main-es2015.js'', ''M'')])) = 1
   \<and> (case fst (executorStage (demoExecutor ([], None) None) (demoEnv False True) (Some ''1'')
                 [mainDemoAction] None [(''dist/main-es2015.js'', ''M'')]) of
        Normal rs \<Rightarrow> True | Return out \<Rightarrow> False | Throw e \<Rightarrow> False)
   \<and> stops (snd (executorStage (demoExecutor (localeDemoResults, None) None) (demoEnv False True)
                 (Some ''1'') [mainDemoAction] None [(''dist/main-es2015.js'', ''M'')])) = 1
   \<and> fst (executorStage (demoExecutor (localeDemoResults, None) None) (demoEnv False True)
            (Some ''1'') [mainDemoAction] None [(''dist/main-es2015.js'', ''M'')])
       = Return \<lparr>success = False, error = None\<rparr>
   \<and> stops (snd (executorStage (demoExecutor ([], Some (StringValue ''worker crashed'')) None)
                 (demoEnv False True) (Some ''1'') [mainDemoAction] None
                 [(''dist/main-es2015.js'', ''M'')])) = 1
   \<and> fst (executorStage (demoExecutor ([], Some (StringValue ''worker crashed'')) None)
            (demoEnv False True) (Some ''1'') [mainDemoAction] None
            [(''dist/main-es2015.js'', ''M'')])
       = Return \<lparr>success = False, error = Some ''worker crashed''\<rparr>
   \<and> stops (snd (executorStage (demoExecutor ([], None) None) (demoEnv False True) (Some ''1'')
                 [mainDemoAction] None [])) = 1
   \<and> (case fst (executorStage (demoExecutor ([], None) None) (demoEnv False True) (Some ''1'')
                 [mainDemoAction] None []) of
        Normal rs \<Rightarrow> False | Return out \<Rightarrow> False | Throw e \<Rightarrow> True)"
proof -
  have "case fst (executorStage (demoExecutor ([], None) None) (demoEnv False True) (Some ''1'')
                 [mainDemoAction] None [(''dist/main-es2015.js'', ''M'')]) of
        Normal rs \<Rightarrow> True | Return out \<Rightarrow> False | Throw e \<Rightarrow> False"
    by code_simp
  moreover have "fst (executorStage (demoExecutor (localeDemoResults, None) None) (demoEnv False True)
            (Some ''1'') [mainDemoAction] None [(''dist/main-es2015.js'', ''M'')])
       = Return \<lparr>success = False, error = None\<rparr>"
    by code_simp
  moreover have "fst (executorStage (demoExecutor ([], Some (StringValue ''worker crashed'')) None)
            (demoEnv False True) (Some ''1'') [mainDemoAction] None
            [(''dist/main-es2015.js'', ''M'')])
       = Return \<lparr>success = False, error = Some ''worker crashed''\<rparr>"
    by code_simp
  moreover have "case fst (executorStage (demoExecutor ([], None) None) (demoEnv False True) (Some ''1'')
                 [mainDemoAction] None []) of
        Normal rs \<Rightarrow> False | Return out \<Rightarrow> False | Throw e \<Rightarrow> True"
    by code_simp
  ultimately show ?thesis
    using executor_stopped_once[of "demoExecutor ([], None) None" "demoEnv False True" "Some ''1''"
              "[mainDemoAction]" None "[(''dist/main-es2015.js'', ''M'')]"]
      executor_stopped_once[of "demoExecutor (localeDemoResults, None) None" "demoEnv False True" "Some ''1''"
              "[mainDemoAction]" None "[(''dist/main-es2015.js'', ''M'')]"]
      executor_stopped_once[of "demoExecutor ([], Some (StringValue ''worker crashed'')) None" "demoEnv False True"
              "Some ''1''" "[mainDemoAction]" None "[(''dist/main-es2015.js'', ''M'')]"]
      executor_stopped_once[of "demoExecutor ([], None) None" "demoEnv False True" "Some ''1''"
              "[mainDemoAction]" None "[]"]
    by blast
qed


section \<open>The budget failures\<close>

lemma budgetMessages_simps [simp]:
  "budgetMessages sev [] = []"
  "budgetMessages sev (f # fs)
     = (if severity f = sev then [''budgets: '' @ message f] else []) @ budgetMessages sev fs"
  by (simp_all add: budgetMessages_def)





section \<open>The warnings of the CommonJS plugin\<close>

lemma checkModule_adds:
  "\<exists>new. comp_warnings (snd (checkModule isAbsolute m pc)) = comp_warnings (snd pc) @ new
     \<and> distinct new \<and> set new \<inter> shownWarnings (fst pc) = {}
     \<and> shownWarnings (fst (checkModule isAbsolute m pc)) = shownWarnings (fst pc) \<union> set new
     \<and> allowedDepedencies (fst (checkModule isAbsolute m pc)) = allowedDepedencies (fst pc)"
proof -
  have "checkModule isAbsolute m pc = pc
        \<or> (\<exists>w. w \<notin> shownWarnings (fst pc)
              \<and> checkModule isAbsolute m pc
                  = (fst pc\<lparr>shownWarnings := insert w (shownWarnings (fst pc))\<rparr>,
                     addWarning (snd pc) w))"
    by (auto simp: checkModule_def Let_def split: option.splits)
  then show ?thesis
  proof
    assume "checkModule isAbsolute m pc = pc"
    then show ?thesis by simp
  next
    assume "\<exists>w. w \<notin> shownWarnings (fst pc)
              \<and> checkModule isAbsolute m pc
                  = (fst pc\<lparr>shownWarnings := insert w (shownWarnings (fst pc))\<rparr>,
                     addWarning (snd pc) w)"
    then obtain w where "w \<notin> shownWarnings (fst pc)"
      "checkModule isAbsolute m pc
         = (fst pc\<lparr>shownWarnings := insert w (shownWarnings (fst pc))\<rparr>, addWarning (snd pc) w)"
      by blast
    then have "comp_warnings (snd (checkModule isAbsolute m pc)) = comp_warnings (snd pc) @ [w]
       \<and> distinct [w] \<and> set [w] \<inter> shownWarnings (fst pc) = {}
       \<and> shownWarnings (fst (checkModule isAbsolute m pc)) = shownWarnings (fst pc) \<union> set [w]
       \<and> allowedDepedencies (fst (checkModule isAbsolute m pc)) = allowedDepedencies (fst pc)"
      by (simp add: addWarning_def)
    then show ?thesis by blast
  qed
qed

lemma finishModules_adds:
  "\<exists>new. comp_warnings (snd (finishModules isAbsolute ms pc)) = comp_warnings (snd pc) @ new
     \<and> distinct new \<and> set new \<inter> shownWarnings (fst pc) = {}
     \<and> shownWarnings (fst (finishModules isAbsolute ms pc)) = shownWarnings (fst pc) \<union> set new"
proof (induction ms arbitrary: pc)
  case Nil
  then show ?case by simp
next
  case (Cons m ms)
  let ?pc1 = "checkModule isAbsolute m pc"
  from checkModule_adds[of isAbsolute m pc] obtain n1 where
    n1: "comp_warnings (snd ?pc1) = comp_warnings (snd pc) @ n1" "distinct n1"
      "set n1 \<inter> shownWarnings (fst pc) = {}"
      "shownWarnings (fst ?pc1) = shownWarnings (fst pc) \<union> set n1"
    by blast
  from Cons.IH[of ?pc1] obtain n2 where
    n2: "comp_warnings (snd (finishModules isAbsolute ms ?pc1)) = comp_warnings (snd ?pc1) @ n2"
      "distinct n2" "set n2 \<inter> shownWarnings (fst ?pc1) = {}"
      "shownWarnings (fst (finishModules isAbsolute ms ?pc1)) = shownWarnings (fst ?pc1) \<union> set n2"
    by blast
  have "comp_warnings (snd (finishModules isAbsolute (m # ms) pc))
          = comp_warnings (snd pc) @ (n1 @ n2)"
    using n1(1) n2(1) by simp
  moreover have "distinct (n1 @ n2)" using n1(2,4) n2(2,3) by auto
  moreover have "set (n1 @ n2) \<inter> shownWarnings (fst pc) = {}" using n1(3,4) n2(3) by auto
  moreover have "shownWarnings (fst (finishModules isAbsolute (m # ms) pc))
                   = shownWarnings (fst pc) \<union> set (n1 @ n2)"
    using n1(4) n2(4) by auto
  ultimately show ?case by blast
qed

text \<open>
  C10: over all the compilations one plugin instance handles, whatever it has shown
  before, the warnings it adds are pairwise distinct and none of them was shown before;
  the set of shown warnings only grows, by exactly the warnings added, and is never
  reset between rebuilds.
\<close>

theorem warnings_shown_once:
  "distinct (concat (map comp_warnings (snd (watchSession isAbsolute rebuilds plugin))))
   \<and> set (concat (map comp_warnings (snd (watchSession isAbsolute rebuilds plugin))))
       \<inter> shownWarnings plugin = {}
   \<and> shownWarnings (fst (watchSession isAbsolute rebuilds plugin))
       = shownWarnings plugin
         \<union> set (concat (map comp_warnings (snd (watchSession isAbsolute rebuilds plugin))))"
proof (induction rebuilds arbitrary: plugin)
  case Nil
  then show ?case by simp
next
  case (Cons modules rebuilds)
  let ?pc = "finishModules isAbsolute modules (plugin, \<lparr>comp_warnings = []\<rparr>)"
  let ?rest = "watchSession isAbsolute rebuilds (fst ?pc)"
  let ?later = "concat (map comp_warnings (snd ?rest))"
  from finishModules_adds[of isAbsolute modules "(plugin, \<lparr>comp_warnings = []\<rparr>)"]
  have first: "distinct (comp_warnings (snd ?pc))"
    "set (comp_warnings (snd ?pc)) \<inter> shownWarnings plugin = {}"
    "shownWarnings (fst ?pc) = shownWarnings plugin \<union> set (comp_warnings (snd ?pc))"
    by auto
  from Cons.IH[of "fst ?pc"]
  have later: "distinct ?later" "set ?later \<inter> shownWarnings (fst ?pc) = {}"
    "shownWarnings (fst ?rest) = shownWarnings (fst ?pc) \<union> set ?later"
    by auto
  have all: "concat (map comp_warnings (snd (watchSession isAbsolute (modules # rebuilds) plugin)))
               = comp_warnings (snd ?pc) @ ?later"
    by (simp add: case_prod_beta)
  have "distinct (comp_warnings (snd ?pc) @ ?later)"
    using first(1,3) later(1,2) by auto
  moreover have "set (comp_warnings (snd ?pc) @ ?later) \<inter> shownWarnings plugin = {}"
    using first(2,3) later(2) by auto
  moreover have "shownWarnings (fst (watchSession isAbsolute (modules # rebuilds) plugin))
                   = shownWarnings plugin \<union> set (comp_warnings (snd ?pc) @ ?later)"
    using first(3) later(3) by (auto simp: case_prod_beta)
  ultimately show ?case unfolding all by blast
qed

theorem warnings_shown_once_witness:
  "map comp_warnings
     (snd (watchSession posixIsAbsolute [[lodashDemo, lodashDemo], [lodashDemo]] (newPlugin None)))
     = [[warningText (Some ''/app/src/main.ts'') ''lodash''], []]
   \<and> distinct (concat (map comp_warnings
        (snd (watchSession posixIsAbsolute [[lodashDemo, lodashDemo], [lodashDemo]]
                (newPlugin None)))))
   \<and> shownWarnings
         (fst (watchSession posixIsAbsolute [[lodashDemo, lodashDemo], [lodashDemo]]
                 (newPlugin None)))
       = {warningText (Some ''/app/src/main.ts'') ''lodash''}"
proof -
  have run: "map comp_warnings
     (snd (watchSession posixIsAbsolute [[lodashDemo, lodashDemo], [lodashDemo]] (newPlugin None)))
     = [[warningText (Some ''/app/src/main.ts'') ''lodash''], []]"
    by code_simp
  have fresh: "shownWarnings (newPlugin None) = {}" by (simp add: newPlugin_def)
  note once = warnings_shown_once[of posixIsAbsolute "[[lodashDemo, lodashDemo], [lodashDemo]]"
        "newPlugin None"]
  from once have d: "distinct (concat (map comp_warnings
        (snd (watchSession posixIsAbsolute [[lodashDemo, lodashDemo], [lodashDemo]]
                (newPlugin None)))))"
    by (rule conjunct1)
  from once have "shownWarnings
         (fst (watchSession posixIsAbsolute [[lodashDemo, lodashDemo], [lodashDemo]]
                 (newPlugin None)))
       = shownWarnings (newPlugin None)
         \<union> set (concat (map comp_warnings
             (snd (watchSession posixIsAbsolute [[lodashDemo, lodashDemo], [lodashDemo]]
                     (newPlugin None)))))"
    by (rule conjunct2[THEN conjunct2])
  then have s: "shownWarnings
         (fst (watchSession posixIsAbsolute [[lodashDemo, lodashDemo], [lodashDemo]]
                 (newPlugin None)))
       = {warningText (Some ''/app/src/main.ts'') ''lodash''}"
    unfolding run fresh by simp
  from run d s show ?thesis by blast
qed

section \<open>The rename of the legacy polyfill bundle\<close>

lemma replaceFirst_no_match:
  "\<not> matchesSomewhere m s \<Longrightarrow> replaceFirst m r s = s"
  by (induction s) (auto split: option.splits)

lemma matchEs20_length: "matchEs20 s = Some n \<Longrightarrow> n = 7 \<and> 7 \<le> length s"
  by (auto simp: matchEs20_def split: if_splits)

lemma stripEs20_shorter:
  "matchesSomewhere matchEs20 s \<Longrightarrow> length (stripEs20 s) < length s"
  unfolding stripEs20_def
proof (induction s)
  case Nil
  then show ?case by (simp add: matchEs20_def startsWith_def)
next
  case (Cons c cs)
  show ?case
  proof (cases "matchEs20 (c # cs)")
    case None
    with Cons show ?thesis by simp
  next
    case (Some n)
    then have "n = 7 \<and> 7 \<le> length (c # cs)" by (rule matchEs20_length)
    with Some show ?thesis by simp
  qed
qed

text \<open>
  C8, as stated: stripping the version suffix twice gives the same as stripping it once,
  for every file name. It fails where the name holds the suffix twice: the second
  stripping removes the second suffix.
\<close>

theorem stripEs20_twice_counterexample:
  "stripEs20 (stripEs20 ''polyfills-es5-es2015-es2016.js'')
     \<noteq> stripEs20 ''polyfills-es5-es2015-es2016.js''"
  by (simp add: stripEs20_def matchEs20_def startsWith_def isDigit_def)

text \<open>
  C8, amended: the rename removes the leftmost version suffix \<^verbatim>\<open>-es20NN\<close> only. A name
  without such a suffix, as an already renamed one is, is left unchanged; and stripping
  a second time changes nothing exactly when the name stripped once holds no further
  suffix.
\<close>

theorem stripEs20_idempotent_iff:
  "(\<not> matchesSomewhere matchEs20 s \<longrightarrow> stripEs20 s = s)
   \<and> (stripEs20 (stripEs20 s) = stripEs20 s
        \<longleftrightarrow> \<not> matchesSomewhere matchEs20 (stripEs20 s))"
  using replaceFirst_no_match[of matchEs20 s "[]"]
    replaceFirst_no_match[of matchEs20 "stripEs20 s" "[]"]
    stripEs20_shorter[of "stripEs20 s"]
  by (auto simp: stripEs20_def)

theorem stripEs20_idempotent_witness:
  "stripEs20 ''polyfills-es5-es2015.js'' = ''polyfills-es5.js''
   \<and> \<not> matchesSomewhere matchEs20 ''polyfills-es5.js''
   \<and> stripEs20 ''polyfills-es5.js'' = ''polyfills-es5.js''
   \<and> stripEs20 (stripEs20 ''polyfills-es5-es2015.js'') = stripEs20 ''polyfills-es5-es2015.js''"
proof -
  have once: "stripEs20 ''polyfills-es5-es2015.js'' = ''polyfills-es5.js''"
    by (simp add: stripEs20_def matchEs20_def startsWith_def isDigit_def)
  have none: "\<not> matchesSomewhere matchEs20 ''polyfills-es5.js''"
    by (simp add: matchEs20_def startsWith_def isDigit_def)
  from none have "stripEs20 ''polyfills-es5.js'' = ''polyfills-es5.js''"
    using stripEs20_idempotent_iff[of "''polyfills-es5.js''"] by blast
  moreover from none once
  have "stripEs20 (stripEs20 ''polyfills-es5-es2015.js'') = stripEs20 ''polyfills-es5-es2015.js''"
    using stripEs20_idempotent_iff[of "''polyfills-es5-es2015.js''"] by simp
  ultimately show ?thesis using once none by blast
qed

section \<open>What the build returns when the inlining throws\<close>

text \<open>
  C9, as stated: when the inlining throws, the error of the returned output is a
  defined message, whatever was thrown. It fails for a thrown number: the output has no
  error message.
\<close>

theorem inlineStage_thrown_counterexample:
  "fst (inlineStage (demoExecutor ([], Some (NumberValue 42)) None) (demoEnv True True) [] [])
     = Return \<lparr>success = False, error = None\<rparr>"
  by (simp add: inlineStage_def demoExecutor_def)

text \<open>
  C9, amended: when drawing the inline results throws, or the copy of the files that were
  not processed throws, the stage returns an unsuccessful output whose error is the
  message of a thrown \<^verbatim>\<open>Error\<close>, the thrown string itself, and undefined for every
  other thrown value.
\<close>

theorem inlineStage_thrown:
  assumes "snd (inlineAll ex ias) = Some err
           \<or> (snd (inlineAll ex ias) = None
               \<and> copyAssets ex (map (pathRelative env (outputPath env)) pf) (outputPaths env)
                   = Some err)"
  shows "fst (inlineStage ex env ias pf)
           = Return \<lparr>success = False, error = mapErrorToMessage err\<rparr>
         \<and> (mapErrorToMessage err = None
              \<longleftrightarrow> \<not> (\<exists>m. err = ErrorObject m \<or> err = StringValue m))"
proof -
  have "mapErrorToMessage err = None \<longleftrightarrow> \<not> (\<exists>m. err = ErrorObject m \<or> err = StringValue m)"
    by (cases err) auto
  moreover have "fst (inlineStage ex env ias pf)
                   = Return \<lparr>success = False, error = mapErrorToMessage err\<rparr>"
    using assms by (auto simp: inlineStage_def Let_def split: prod.splits option.splits)
  ultimately show ?thesis by blast
qed

theorem inlineStage_thrown_witness:
  "fst (inlineStage (demoExecutor ([], Some (ErrorObject ''worker crashed'')) None)
          (demoEnv True True) [] [])
     = Return \<lparr>success = False, error = Some ''worker crashed''\<rparr>
   \<and> fst (inlineStage (demoExecutor ([], None) (Some (StringValue ''disk full'')))
            (demoEnv True True) [] [])
       = Return \<lparr>success = False, error = Some ''disk full''\<rparr>"
  using inlineStage_thrown[of "demoExecutor ([], Some (ErrorObject ''worker crashed'')) None"
      "[]" "ErrorObject ''worker crashed''" "demoEnv True True" "[]"]
    inlineStage_thrown[of "demoExecutor ([], None) (Some (StringValue ''disk full''))"
      "[]" "StringValue ''disk full''" "demoEnv True True" "[]"]
  by (simp add: demoExecutor_def)

end
